theory Spec2Isabelle
  imports Complex_Main "HOL-Library.Word" "HOL-Library.Finite_Map" "HOL-Library.Sublist"
begin

section \<open>Data model of gpu.h\<close>

text \<open>
  \<open>size_t\<close> values that are arbitrary numbers (dimensions, byte sizes, thread counts) are
  64-bit words: \<open>+\<close>, \<open>-\<close> and \<open>*\<close> wrap around as the unsigned arithmetic of C++ does.
  Loop indices and the number of elements of an in-memory array are \<open>nat\<close>: they are
  bounded by the array they range over. A WebGPU object handle (\<open>WGPUBuffer\<close>,
  \<open>WGPUDevice\<close>, ...) is an opaque pointer; it is a \<open>nat\<close> here and \<open>0\<close> is \<open>nullptr\<close>.
\<close>

type_synonym size_t = "64 word"
type_synonym uint32_t = "32 word"
type_synonym handle = nat

text \<open>
  How a call can end without returning: a failed \<open>assert\<close> (only when \<open>NDEBUG\<close> is not
  defined), \<open>exit(1)\<close> from \<open>check\<close>, or undefined behaviour of C++ (an out-of-range read,
  a division by zero, a null source for \<open>memcpy\<close>). The string names the place.
\<close>

datatype fault = AssertFailed string | Exit1 string | UB string

text \<open>
  Lines 23-27: \<open>kDebug\<close> is \<open>false\<close> exactly when \<open>NDEBUG\<close> is defined, and the same macro
  compiles \<open>assert\<close> away. The build is a parameter \<open>kDebug\<close> of every function that
  asserts or checks.
\<close>

definition assert_cpp :: "bool \<Rightarrow> bool \<Rightarrow> string \<Rightarrow> fault + unit" where
  "assert_cpp kDebug condition expr =
     (if kDebug \<and> \<not> condition then Inl (AssertFailed expr) else Inr ())"

record Array =
  Array_buffer :: handle
  Array_usage :: uint32_t
  Array_size :: size_t

definition kMaxRank :: nat where
  "kMaxRank = 8"

record Shape =
  Shape_data :: "size_t list"
  Shape_rank :: nat

text \<open>
  \<open>Shape(std::initializer_list<size_t> dims)\<close>: \<open>data\<close> is a \<open>std::array\<close> of \<open>kMaxRank\<close>
  zeros that the dimensions are copied into.
\<close>

definition Shape_init :: "bool \<Rightarrow> size_t list \<Rightarrow> fault + Shape" where
  "Shape_init kDebug dims =
     (if length dims \<le> kMaxRank
      then Inr \<lparr>Shape_data = dims @ replicate (kMaxRank - length dims) 0,
                Shape_rank = length dims\<rparr>
      else if kDebug then Inl (AssertFailed ''dims.size() <= kMaxRank'')
      else Inl (UB ''std::copy past the end of data''))"

text \<open>The default constructor \<open>Shape()\<close>: all zeros, rank 0.\<close>

definition Shape_default :: Shape where
  "Shape_default = \<lparr>Shape_data = replicate kMaxRank 0, Shape_rank = 0\<rparr>"

text \<open>A shape as the constructors build it: \<open>kMaxRank\<close> slots, of which \<open>rank\<close> are used.\<close>

definition Shape_ok :: "Shape \<Rightarrow> bool" where
  "Shape_ok shape = (length (Shape_data shape) = kMaxRank \<and> Shape_rank shape \<le> kMaxRank)"

text \<open>The dimensions of a shape: the first \<open>rank\<close> slots of \<open>data\<close>.\<close>

definition Shape_dims :: "Shape \<Rightarrow> size_t list" where
  "Shape_dims shape = take (Shape_rank shape) (Shape_data shape)"

text \<open>\<open>operator[]\<close> of \<open>Shape\<close> (lines 52-59): \<open>assert(index < rank)\<close>, then \<open>data[index]\<close>.\<close>

definition Shape_at :: "bool \<Rightarrow> Shape \<Rightarrow> nat \<Rightarrow> fault + size_t" where
  "Shape_at kDebug shape index =
     (case assert_cpp kDebug (index < Shape_rank shape) ''index < rank'' of
        Inl e \<Rightarrow> Inl e
      | Inr _ \<Rightarrow>
          if index < length (Shape_data shape) then Inr (Shape_data shape ! index)
          else Inl (UB ''data[index] out of range''))"

text \<open>
  \<open>size(const Shape &)\<close>, lines 62-68. The loop reads \<open>shape.data[i]\<close> without the assertion
  of \<open>operator[]\<close>; a rank beyond the array is an out-of-range read.
\<close>

function size_loop :: "Shape \<Rightarrow> nat \<Rightarrow> size_t \<Rightarrow> fault + size_t" where
  "size_loop shape i numels =
     (if i < Shape_rank shape
      then if i < length (Shape_data shape)
           then size_loop shape (i + 1) (numels * Shape_data shape ! i)
           else Inl (UB ''shape.data[i] out of range'')
      else Inr numels)"
  by pat_completeness auto
termination
  by (relation "measure (\<lambda>(shape, i, numels). Shape_rank shape - i)") auto

declare size_loop.simps [simp del]

definition size_Shape :: "Shape \<Rightarrow> fault + size_t" where
  "size_Shape shape = size_loop shape 0 1"

record Tensor =
  Tensor_data :: Array
  Tensor_shape :: Shape

text \<open>
  \<open>enum NumType { kf32 }\<close>. An enumeration object can hold a value that is none of its
  enumerators (the \<open>default:\<close> branch of \<open>ToString\<close> and the \<open>dtype == kf32 ? ... : 0\<close> of
  \<open>CreateTensor\<close> are written for it); \<open>kOther n\<close> is such a value.
\<close>

datatype NumType = kf32 | kOther nat

text \<open>
  \<open>utils/logging.h\<close> is not part of the sources. A call \<open>log(kDefLog, level, text)\<close> is an
  event of the trace; format arguments are left out of the text.
\<close>

datatype LogLevel = kError | kWarn | kInfo | kTrace

text \<open>
  The WebGPU implementation is an opaque collaborator. Every call into it is an event of
  the trace, in program order, with the arguments the claims speak about. A call that
  returns a handle gets it from the parameter \<open>wgpu\<close>, a function of the trace up to and
  including that call: nothing is assumed about the handles, they may be null or repeat.
\<close>

datatype BufferBindingType = BindingType_Undefined | BindingType_Uniform | BindingType_Storage

record BindGroupLayoutEntry =
  layout_binding :: uint32_t
  layout_type :: BufferBindingType
  layout_minBindingSize :: size_t

record BindGroupEntry =
  entry_binding :: uint32_t
  entry_buffer :: handle
  entry_offset :: size_t
  entry_size :: size_t

datatype event =
    Log LogLevel string
  | DeviceCreateBuffer handle uint32_t size_t
  | BufferRelease handle
  | QueueWriteBuffer handle handle size_t
  | DeviceCreateBindGroupLayout handle "BindGroupLayoutEntry list"
  | DeviceCreateBindGroup handle handle nat "BindGroupEntry list"
  | DeviceCreatePipelineLayout handle handle
  | DeviceCreateShaderModule handle string
  | DeviceCreateComputePipeline handle handle handle string
  | DeviceCreateCommandEncoder handle
  | CommandEncoderBeginComputePass handle
  | ComputePassEncoderSetPipeline handle handle
  | ComputePassEncoderSetBindGroup handle handle
  | ComputePassEncoderDispatchWorkgroups handle uint32_t uint32_t uint32_t
  | ComputePassEncoderEnd handle
  | CommandEncoderCopyBufferToBuffer handle handle handle size_t
  | CommandEncoderFinish handle
  | KernelPoolInsert
  | QueueSubmit handle handle
  | QueueOnSubmittedWorkDone handle
  | InstanceProcessEvents handle
  | WorkDoneCallback bool
  | BufferMapAsync handle size_t
  | MapCallback bool
  | BufferGetConstMappedRange handle size_t
  | Memcpy handle size_t
  | BufferUnmap handle
  | PromiseSetValue
  | CreateInstance
  | InstanceRequestAdapter handle
  | AdapterRequestDevice handle
  | DeviceSetUncapturedErrorCallback handle
  | DeviceGetQueue handle

type_synonym trace = "event list"
type_synonym wgpu = "trace \<Rightarrow> handle"

text \<open>Usage flags of \<open>webgpu.h\<close> (\<open>WGPUBufferUsage\<close>).\<close>

definition WGPUBufferUsage_MapRead :: uint32_t where "WGPUBufferUsage_MapRead = 0x1"
definition WGPUBufferUsage_CopySrc :: uint32_t where "WGPUBufferUsage_CopySrc = 0x4"
definition WGPUBufferUsage_CopyDst :: uint32_t where "WGPUBufferUsage_CopyDst = 0x8"
definition WGPUBufferUsage_Uniform :: uint32_t where "WGPUBufferUsage_Uniform = 0x40"
definition WGPUBufferUsage_Storage :: uint32_t where "WGPUBufferUsage_Storage = 0x80"

section \<open>TensorPool: CreateTensor and FreeTensor\<close>

text \<open>\<open>TensorPool::data\<close>, a \<open>std::unordered_map<WGPUBuffer, Tensor>\<close>.\<close>

type_synonym TensorPool = "(handle, Tensor) fmap"

text \<open>
  The element-count loop of \<open>CreateTensor\<close>, lines 284-287 (the same loop as \<open>size\<close>);
  \<open>dim0\<close> is the loop variable \<open>dim\<close>.
\<close>

function numElements_loop :: "Shape \<Rightarrow> nat \<Rightarrow> size_t \<Rightarrow> fault + size_t" where
  "numElements_loop shape dim0 numElements =
     (if dim0 < Shape_rank shape
      then if dim0 < length (Shape_data shape)
           then numElements_loop shape (dim0 + 1) (numElements * Shape_data shape ! dim0)
           else Inl (UB ''shape.data[dim] out of range'')
      else Inr numElements)"
  by pat_completeness auto
termination
  by (relation "measure (\<lambda>(shape, dim0, numElements). Shape_rank shape - dim0)") auto

declare numElements_loop.simps [simp del]

text \<open>Line 288: \<open>size_t size = dtype == kf32 ? sizeof(float) * numElements : 0\<close>.\<close>

definition CreateTensor_size :: "NumType \<Rightarrow> size_t \<Rightarrow> size_t" where
  "CreateTensor_size dtype numElements = (if dtype = kf32 then 4 * numElements else 0)"

text \<open>
  \<open>CreateTensor(pool, device, shape, dtype, usage)\<close>, lines 278-300. The result is the
  returned tensor, the pool and the trace. \<open>pool.data[buffer] = ...\<close> inserts or overwrites;
  line 298 calls \<open>wgpuDeviceCreateBuffer\<close> a second time and drops the handle; the return
  value is read back from the pool.
\<close>

definition CreateTensor ::
  "wgpu \<Rightarrow> TensorPool \<Rightarrow> trace \<Rightarrow> handle \<Rightarrow> Shape \<Rightarrow> NumType \<Rightarrow> uint32_t
   \<Rightarrow> fault + (Tensor \<times> TensorPool \<times> trace)" where
  "CreateTensor wgpu pool tr device shape dtype usage =
     (let tr1 = tr @ [Log kTrace ''Creating tensor''] in
      case numElements_loop shape 0 1 of
        Inl e \<Rightarrow> Inl e
      | Inr numElements \<Rightarrow>
          let size = CreateTensor_size dtype numElements;
              tr2 = tr1 @ [DeviceCreateBuffer device usage size];
              buffer = wgpu tr2;
              pool1 = fmupd buffer
                 \<lparr>Tensor_data = \<lparr>Array_buffer = buffer, Array_usage = usage, Array_size = size\<rparr>,
                  Tensor_shape = shape\<rparr> pool;
              tr3 = tr2 @ [DeviceCreateBuffer device usage size]
          in (case fmlookup pool1 buffer of
                None \<Rightarrow> Inl (UB ''unreachable: the key was just stored'')
              | Some t \<Rightarrow> Inr (t, pool1, tr3)))"

text \<open>
  \<open>FreeTensor(pool, tensor)\<close>, lines 359-370: two independent tests, the first on the
  handle, the second on the pool.
\<close>

definition FreeTensor :: "TensorPool \<Rightarrow> trace \<Rightarrow> Tensor \<Rightarrow> TensorPool \<times> trace" where
  "FreeTensor pool tr tensor =
     (let buffer = Array_buffer (Tensor_data tensor);
          tr1 = (if buffer \<noteq> 0 then tr @ [BufferRelease buffer]
                 else tr @ [Log kWarn ''Tried to free tensor with null buffer''])
      in if fmlookup pool buffer \<noteq> None
         then (fmdrop buffer pool, tr1)
         else (pool, tr1 @ [Log kWarn ''Tried to free tensor that was not in pool'']))"

section \<open>check\<close>

text \<open>
  \<open>check(condition, message, file, line)\<close>, lines 454-466. Under \<open>if constexpr (kDebug)\<close>:
  a false condition logs an error and calls \<open>exit(1)\<close>, a true one logs at trace level.
  Without \<open>kDebug\<close> the body is empty.
\<close>

definition check :: "bool \<Rightarrow> bool \<Rightarrow> string \<Rightarrow> trace \<Rightarrow> (fault + unit) \<times> trace" where
  "check kDebug condition message tr =
     (if kDebug
      then if \<not> condition
           then (Inl (Exit1 message), tr @ [Log kError message])
           else (Inr (), tr @ [Log kTrace message])
      else (Inr (), tr))"

section \<open>String forms\<close>

text \<open>
  \<open>std::to_string\<close> of a \<open>size_t\<close>: the decimal digits, most significant first, \<open>0\<close> for zero.
\<close>

definition digit_char :: "nat \<Rightarrow> char" where
  "digit_char d = char_of (48 + d)"

fun digits_acc :: "nat \<Rightarrow> nat \<Rightarrow> string \<Rightarrow> string" where
  "digits_acc 0 n acc = acc"
| "digits_acc (Suc fuel) n acc =
     (if n < 10 then digit_char n # acc
      else digits_acc fuel (n div 10) (digit_char (n mod 10) # acc))"

text \<open>A 64-bit value has at most 20 decimal digits.\<close>

definition to_string :: "size_t \<Rightarrow> string" where
  "to_string v = digits_acc 20 (unat v) []"

text \<open>\<open>ToString(NumType)\<close>, lines 116-124.\<close>

fun ToString_NumType :: "NumType \<Rightarrow> string" where
  "ToString_NumType kf32 = ''f32''"
| "ToString_NumType (kOther n) = ''unknown''"

text \<open>
  \<open>ToString(const Shape &)\<close>, lines 131-140. \<open>shape.rank - 1\<close> is unsigned: it wraps for rank
  0, where the loop body does not run.
\<close>

function ToString_loop :: "Shape \<Rightarrow> nat \<Rightarrow> string \<Rightarrow> fault + string" where
  "ToString_loop shape i str =
     (if i < Shape_rank shape
      then if i < length (Shape_data shape)
           then let str1 = str @ to_string (Shape_data shape ! i);
                    str2 = (if i < (if Shape_rank shape = 0 then 2 ^ 64 - 1 else Shape_rank shape - 1)
                            then str1 @ '', '' else str1)
                in ToString_loop shape (i + 1) str2
           else Inl (UB ''shape.data[i] out of range'')
      else Inr str)"
  by pat_completeness auto
termination
  by (relation "measure (\<lambda>(shape, i, str). Shape_rank shape - i)") auto

declare ToString_loop.simps [simp del]

definition ToString_Shape :: "Shape \<Rightarrow> fault + string" where
  "ToString_Shape shape = ToString_loop shape 0 []"

section \<open>Kernel construction\<close>

record ShaderCode =
  ShaderCode_data :: string
  ShaderCode_workgroupSize :: Shape
  ShaderCode_precision :: NumType

record Kernel =
  Kernel_buffers :: "handle list"
  Kernel_bufferSizes :: "size_t list"
  Kernel_numBindings :: nat
  Kernel_nWorkgroups :: Shape
  Kernel_bindGroup :: handle
  Kernel_computePipeline :: handle
  Kernel_commandBuffer :: handle

record Context =
  Context_instance :: handle
  Context_adapter :: handle
  Context_device :: handle
  Context_queue :: handle

text \<open>A call into WebGPU that returns a handle: the event is recorded, \<open>wgpu\<close> answers.\<close>

definition call :: "wgpu \<Rightarrow> trace \<Rightarrow> event \<Rightarrow> handle \<times> trace" where
  "call wgpu tr ev = (wgpu (tr @ [ev]), tr @ [ev])"

text \<open>
  \<open>ResetCommandBuffer(device, nThreads, op)\<close>, lines 645-665. The workgroup counts are read
  through \<open>operator[]\<close> and narrowed to the \<open>uint32_t\<close> parameters of the dispatch call.
\<close>

definition ResetCommandBuffer ::
  "bool \<Rightarrow> wgpu \<Rightarrow> trace \<Rightarrow> handle \<Rightarrow> Shape \<Rightarrow> Kernel \<Rightarrow> (fault + Kernel) \<times> trace" where
  "ResetCommandBuffer kDebug wgpu tr device nThreads op =
     (let tr0 = tr @ [Log kTrace ''Create command buffer''];
          (commandEncoder, tr1) = call wgpu tr0 (DeviceCreateCommandEncoder device);
          (computePassEncoder, tr2) = call wgpu tr1 (CommandEncoderBeginComputePass commandEncoder);
          tr3 = tr2 @ [Log kTrace ''Set pipeline'',
                       ComputePassEncoderSetPipeline computePassEncoder (Kernel_computePipeline op),
                       ComputePassEncoderSetBindGroup computePassEncoder (Kernel_bindGroup op)]
      in case ToString_Shape nThreads of
           Inl e \<Rightarrow> (Inl e, tr3)
         | Inr s \<Rightarrow>
             let tr4 = tr3 @ [Log kTrace ''Dispatching workgroups for number of threads''] in
             (case Shape_at kDebug (Kernel_nWorkgroups op) 0 of
               Inl e \<Rightarrow> (Inl e, tr4)
             | Inr x \<Rightarrow>
             (case Shape_at kDebug (Kernel_nWorkgroups op) 1 of
               Inl e \<Rightarrow> (Inl e, tr4)
             | Inr y \<Rightarrow>
             (case Shape_at kDebug (Kernel_nWorkgroups op) 2 of
               Inl e \<Rightarrow> (Inl e, tr4)
             | Inr z \<Rightarrow>
                 let tr5 = tr4 @ [ComputePassEncoderDispatchWorkgroups computePassEncoder
                                    (ucast x) (ucast y) (ucast z),
                                  ComputePassEncoderEnd computePassEncoder];
                     (commandBuffer, tr6) = call wgpu tr5 (CommandEncoderFinish commandEncoder);
                     op1 = op\<lparr>Kernel_commandBuffer := commandBuffer\<rparr>
                 in (case check kDebug (commandBuffer \<noteq> 0) ''Create command buffer'' tr6 of
                      (Inl e, tr7) \<Rightarrow> (Inl e, tr7)
                    | (Inr _, tr7) \<Rightarrow> (Inr op1, tr7))))))"

text \<open>
  Lines 720-745: the vector of \<open>numBindings\<close> value-initialised layout entries, then one
  storage entry per input tensor, then the uniform entry of the parameter block.
\<close>

definition bgLayoutEntry_default :: BindGroupLayoutEntry where
  "bgLayoutEntry_default =
     \<lparr>layout_binding = 0, layout_type = BindingType_Undefined, layout_minBindingSize = 0\<rparr>"

definition bgLayoutEntry_input :: "Tensor list \<Rightarrow> nat \<Rightarrow> BindGroupLayoutEntry" where
  "bgLayoutEntry_input inputs i =
     \<lparr>layout_binding = of_nat i, layout_type = BindingType_Storage,
      layout_minBindingSize = Array_size (Tensor_data (inputs ! i))\<rparr>"

definition bgLayoutEntries :: "Tensor list \<Rightarrow> size_t \<Rightarrow> BindGroupLayoutEntry list" where
  "bgLayoutEntries inputs paramsSize =
     (let numTensors = length inputs;
          numBindings = (if paramsSize > 0 then numTensors + 1 else numTensors);
          paramIndex = numBindings - 1;
          entries0 = replicate numBindings bgLayoutEntry_default;
          entries1 = fold (\<lambda>i es. es[i := bgLayoutEntry_input inputs i]) [0..<numTensors] entries0
      in if paramsSize > 0
         then entries1[paramIndex :=
                \<lparr>layout_binding = of_nat paramIndex, layout_type = BindingType_Uniform,
                 layout_minBindingSize = paramsSize\<rparr>]
         else entries1)"

text \<open>Line 822-825, one axis: \<open>(nThreads[a] + (shader.workgroupSize[a] - 1)) / shader.workgroupSize[a]\<close>.\<close>

definition nWorkgroups_axis :: "bool \<Rightarrow> Shape \<Rightarrow> Shape \<Rightarrow> nat \<Rightarrow> fault + size_t" where
  "nWorkgroups_axis kDebug nThreads workgroupSize axis =
     (case Shape_at kDebug nThreads axis of
        Inl e \<Rightarrow> Inl e
      | Inr n \<Rightarrow>
          (case Shape_at kDebug workgroupSize axis of
             Inl e \<Rightarrow> Inl e
           | Inr w \<Rightarrow>
               if w = 0 then Inl (UB ''division by zero'')
               else Inr ((n + (w - 1)) div w)))"

definition nWorkgroups_of :: "bool \<Rightarrow> Shape \<Rightarrow> Shape \<Rightarrow> fault + Shape" where
  "nWorkgroups_of kDebug nThreads workgroupSize =
     (case nWorkgroups_axis kDebug nThreads workgroupSize 0 of
        Inl e \<Rightarrow> Inl e
      | Inr x \<Rightarrow>
     (case nWorkgroups_axis kDebug nThreads workgroupSize 1 of
        Inl e \<Rightarrow> Inl e
      | Inr y \<Rightarrow>
     (case nWorkgroups_axis kDebug nThreads workgroupSize 2 of
        Inl e \<Rightarrow> Inl e
      | Inr z \<Rightarrow> Shape_init kDebug [x, y, z])))"

text \<open>
  \<open>CreateKernel(ctx, shader, inputs, numTensors, nThreads, params, paramsSize)\<close>, lines
  698-830. The pointer \<open>inputs\<close> with its count \<open>numTensors\<close> is the list \<open>inputs\<close>; the
  bytes behind \<open>params\<close> are not looked at by the function and are left out.

  \<open>CreateKernel_pipeline\<close> is the straight-line part, lines 703-821: binding count, layout,
  buffers, bind group and pipeline. \<open>Kernel op;\<close> starts with the default shape and handles
  that are not yet set (0 here).
\<close>

definition CreateKernel_pipeline ::
  "wgpu \<Rightarrow> trace \<Rightarrow> Context \<Rightarrow> ShaderCode \<Rightarrow> Tensor list \<Rightarrow> size_t \<Rightarrow> Kernel \<times> trace" where
  "CreateKernel_pipeline wgpu tr ctx shader inputs paramsSize =
     (let device = Context_device ctx;
          queue = Context_queue ctx;
          numTensors = length inputs;
          numBindings = (if paramsSize > 0 then numTensors + 1 else numTensors);
          paramIndex = numBindings - 1;
          tr1 = tr @ [Log kInfo ''Create the bind group layout''];
          entries = bgLayoutEntries inputs paramsSize;
          tr2 = (if paramsSize > 0
                 then tr1 @ [Log kInfo ''Create layout entry for the params buffer'']
                 else tr1)
                @ [Log kInfo ''Create the bind group layout descriptor''];
          (bgLayout, tr3) = call wgpu tr2 (DeviceCreateBindGroupLayout device entries);
          buffers0 = fold (\<lambda>i bs. bs[i := Array_buffer (Tensor_data (inputs ! i))])
                       [0..<numTensors] (replicate numBindings 0);
          bufferSizes0 = fold (\<lambda>i bs. bs[i := Array_size (Tensor_data (inputs ! i))])
                       [0..<numTensors] (replicate numBindings 0);
          tr4 = tr3 @ [Log kInfo ''Create the params buffer''];
          (buffers, bufferSizes, tr5) =
             (if paramsSize > 0
              then let (paramsBuffer, t1) =
                         call wgpu tr4 (DeviceCreateBuffer device
                            (or WGPUBufferUsage_Uniform WGPUBufferUsage_CopyDst) paramsSize)
                   in (buffers0[paramIndex := paramsBuffer],
                       bufferSizes0[paramIndex := paramsSize],
                       t1 @ [QueueWriteBuffer queue paramsBuffer paramsSize,
                             Log kInfo ''Params buffer written''])
              else (buffers0, bufferSizes0, tr4 @ [Log kInfo ''No params buffer needed'']));
          tr6 = tr5 @ [Log kInfo ''Create the bind group''];
          bindGroupEntries0 =
             fold (\<lambda>i es. es[i := \<lparr>entry_binding = of_nat i, entry_buffer = buffers ! i,
                                      entry_offset = 0, entry_size = bufferSizes ! i\<rparr>])
               [0..<numTensors]
               (replicate numBindings
                  \<lparr>entry_binding = 0, entry_buffer = 0, entry_offset = 0, entry_size = 0\<rparr>);
          bindGroupEntries =
             (if paramsSize > 0
              then bindGroupEntries0[paramIndex :=
                     \<lparr>entry_binding = of_nat paramIndex, entry_buffer = buffers ! paramIndex,
                      entry_offset = 0, entry_size = paramsSize\<rparr>]
              else bindGroupEntries0);
          tr7 = (if paramsSize > 0
                 then tr6 @ [Log kInfo ''Create bind group entry for the params buffer'',
                             Log kInfo ''paramIndex'']
                 else tr6)
                @ [Log kInfo ''BG Entries Size''];
          (bindGroup, tr8) =
             call wgpu tr7 (DeviceCreateBindGroup device bgLayout numBindings bindGroupEntries);
          (pipelineLayout, tr9) = call wgpu tr8 (DeviceCreatePipelineLayout device bgLayout);
          (shaderModule, tr10) =
             call wgpu tr9 (DeviceCreateShaderModule device (ShaderCode_data shader));
          (computePipeline, tr11) =
             call wgpu tr10
               (DeviceCreateComputePipeline device pipelineLayout shaderModule ''main'')
      in (\<lparr>Kernel_buffers = buffers, Kernel_bufferSizes = bufferSizes,
           Kernel_numBindings = numBindings, Kernel_nWorkgroups = Shape_default,
           Kernel_bindGroup = bindGroup, Kernel_computePipeline = computePipeline,
           Kernel_commandBuffer = 0\<rparr>, tr11))"

text \<open>
  The whole function: the assertion of line 702, the straight-line part, the workgroup
  counts of lines 822-825, \<open>ResetCommandBuffer\<close>, the registration in the kernel pool.
\<close>

definition CreateKernel ::
  "bool \<Rightarrow> wgpu \<Rightarrow> trace \<Rightarrow> Context \<Rightarrow> ShaderCode \<Rightarrow> Tensor list \<Rightarrow> Shape \<Rightarrow> size_t
   \<Rightarrow> (fault + Kernel) \<times> trace" where
  "CreateKernel kDebug wgpu tr ctx shader inputs nThreads paramsSize =
     (case assert_cpp kDebug (Shape_rank nThreads = 3) ''nThreads.rank == 3'' of
        Inl e \<Rightarrow> (Inl e, tr)
      | Inr _ \<Rightarrow>
          let (op0, tr11) = CreateKernel_pipeline wgpu tr ctx shader inputs paramsSize in
          (case nWorkgroups_of kDebug nThreads (ShaderCode_workgroupSize shader) of
             Inl e \<Rightarrow> (Inl e, tr11)
           | Inr nWorkgroups \<Rightarrow>
               (case ResetCommandBuffer kDebug wgpu tr11 (Context_device ctx) nThreads
                       (op0\<lparr>Kernel_nWorkgroups := nWorkgroups\<rparr>) of
                  (Inl e, tr12) \<Rightarrow> (Inl e, tr12)
                | (Inr op1, tr12) \<Rightarrow>
                    (Inr op1, tr12 @ [KernelPoolInsert, Log kInfo ''Exiting CreateKernel'']))))"

section \<open>Shader templating\<close>

text \<open>
  \<open>std::string::find(from, pos)\<close>: the lowest index not below \<open>pos\<close> where \<open>from\<close> occurs,
  or \<open>npos\<close> (\<open>None\<close>). \<open>find_first s from\<close> searches from the start of \<open>s\<close>; an empty
  \<open>from\<close> is found at once, also at the end of the string.
\<close>

fun find_first :: "string \<Rightarrow> string \<Rightarrow> nat option" where
  "find_first [] from = (if from = [] then Some 0 else None)"
| "find_first (c # cs) from =
     (if prefix from (c # cs) then Some 0 else map_option Suc (find_first cs from))"

definition string_find :: "string \<Rightarrow> string \<Rightarrow> nat \<Rightarrow> nat option" where
  "string_find str from pos =
     (if pos > length str then None
      else map_option (\<lambda>i. pos + i) (find_first (drop pos str) from))"

text \<open>\<open>str.replace(pos, len, to)\<close> for \<open>pos \<le> str.size()\<close>.\<close>

definition string_replace :: "string \<Rightarrow> nat \<Rightarrow> nat \<Rightarrow> string \<Rightarrow> string" where
  "string_replace str pos len to = take pos str @ to @ drop (pos + len) str"

text \<open>
  \<open>ReplaceAll(str, from, to)\<close>, lines 401-408. The loop need not end (an empty \<open>from\<close> is
  found again at every position): \<open>None\<close> is a call that does not return.
\<close>

partial_function (option) ReplaceAll_loop ::
  "string \<Rightarrow> string \<Rightarrow> string \<Rightarrow> nat \<Rightarrow> string option" where
  "ReplaceAll_loop str from to start_pos =
     (case string_find str from start_pos of
        None \<Rightarrow> Some str
      | Some p \<Rightarrow>
          ReplaceAll_loop (string_replace str p (length from) to) from to (p + length to))"

declare ReplaceAll_loop.simps [code]

definition ReplaceAll :: "string \<Rightarrow> string \<Rightarrow> string \<Rightarrow> string option" where
  "ReplaceAll str from to = ReplaceAll_loop str from to 0"

definition kWorkgroupSizeToken :: string where
  "kWorkgroupSizeToken = ''{{workgroupSize}}''"

definition kPrecisionToken :: string where
  "kPrecisionToken = ''{{precision}}''"

text \<open>
  \<open>CreateShader(shaderTemplate, workgroupSize, precision)\<close>, lines 427-435. The returned
  \<open>ShaderCode{codeString, workgroupSize}\<close> takes the constructor's default precision
  \<open>kf32\<close>. \<open>None\<close>: the call does not return.
\<close>

definition CreateShader ::
  "string \<Rightarrow> Shape \<Rightarrow> NumType \<Rightarrow> trace \<Rightarrow> (fault + ShaderCode \<times> trace) option" where
  "CreateShader shaderTemplate workgroupSize precision tr =
     (case ToString_Shape workgroupSize of
        Inl e \<Rightarrow> Some (Inl e)
      | Inr ws \<Rightarrow>
          (case ReplaceAll shaderTemplate kWorkgroupSizeToken ws of
             None \<Rightarrow> None
           | Some code1 \<Rightarrow>
               (case ReplaceAll code1 kPrecisionToken (ToString_NumType precision) of
                  None \<Rightarrow> None
                | Some codeString \<Rightarrow>
                    Some (Inr (\<lparr>ShaderCode_data = codeString,
                                 ShaderCode_workgroupSize = workgroupSize,
                                 ShaderCode_precision = kf32\<rparr>,
                               tr @ [Log kInfo ''Shader code:''])))))"

text \<open>
  What the specification says of the templating, in its own words: reading the template
  from left to right, every occurrence of a placeholder token is replaced by that token's
  string form, and every other character is copied unchanged.
\<close>

function replace_every :: "string \<Rightarrow> string \<Rightarrow> string \<Rightarrow> string" where
  "replace_every from to [] = []"
| "replace_every from to (c # cs) =
     (if from \<noteq> [] \<and> prefix from (c # cs)
      then to @ replace_every from to (drop (length from) (c # cs))
      else c # replace_every from to cs)"
  by pat_completeness auto
termination
  by (relation "measure (\<lambda>(from, to, s). length s)") (auto simp: neq_Nil_conv)

function substitute_placeholders :: "string \<Rightarrow> string \<Rightarrow> string \<Rightarrow> string" where
  "substitute_placeholders ws pr [] = []"
| "substitute_placeholders ws pr (c # cs) =
     (if prefix kWorkgroupSizeToken (c # cs)
      then ws @ substitute_placeholders ws pr (drop (length kWorkgroupSizeToken) (c # cs))
      else if prefix kPrecisionToken (c # cs)
      then pr @ substitute_placeholders ws pr (drop (length kPrecisionToken) (c # cs))
      else c # substitute_placeholders ws pr cs)"
  by pat_completeness auto
termination
  by (relation "measure (\<lambda>(ws, pr, s). length s)")
     (auto simp: kWorkgroupSizeToken_def kPrecisionToken_def)

text \<open>The characters of the string form of a shape: decimal digits, comma and space.\<close>

definition is_digit_or_sep :: "char \<Rightarrow> bool" where
  "is_digit_or_sep c = (c \<in> set ''0123456789, '')"

declare replace_every.simps [simp del]
declare substitute_placeholders.simps [simp del]

section \<open>Context creation\<close>

text \<open>
  \<open>CreateContext(desc, adapterOpts, devDescriptor)\<close>, lines 486-563. The two requests take
  a callback. Whether WebGPU runs it before the request call returns is WebGPU's choice:
  \<open>adapterReply\<close> and \<open>deviceReply\<close> are \<open>Some (ok, h)\<close> when it does (\<open>ok\<close>: the status is
  \<open>Success\<close>; \<open>h\<close>: the handle passed to the callback) and \<open>None\<close> when it does not. The
  function calls nothing else between a request and the read of its result.
\<close>

definition CreateContext ::
  "bool \<Rightarrow> wgpu \<Rightarrow> (bool \<times> handle) option \<Rightarrow> (bool \<times> handle) option \<Rightarrow> trace
   \<Rightarrow> (fault + Context) \<times> trace" where
  "CreateContext kDebug wgpu adapterReply deviceReply tr =
     (let (instance, tr1) = call wgpu tr CreateInstance in
      case check kDebug (instance \<noteq> 0) ''Initialize WebGPU'' tr1 of
        (Inl e, tr2) \<Rightarrow> (Inl e, tr2)
      | (Inr _, tr2) \<Rightarrow>
     (let tr3 = tr2 @ [Log kInfo ''Requesting adapter'', InstanceRequestAdapter instance];
          (r1, adapter, adapterEnded, tr4) =
             (case adapterReply of
                None \<Rightarrow> (Inr (), 0, False, tr3)
              | Some (ok, h) \<Rightarrow>
                  (case check kDebug ok ''Request WebGPU adapter'' tr3 of
                     (Inl e, t) \<Rightarrow> (Inl e, 0, False, t)
                   | (Inr _, t) \<Rightarrow> (Inr (), h, True, t)))
      in case r1 of
           Inl e \<Rightarrow> (Inl e, tr4)
         | Inr _ \<Rightarrow>
     (case assert_cpp kDebug adapterEnded ''adapterData.requestEnded'' of
        Inl e \<Rightarrow> (Inl e, tr4)
      | Inr _ \<Rightarrow>
     (let tr5 = tr4 @ [Log kInfo ''Requesting device'', AdapterRequestDevice adapter];
          (r2, device, deviceEnded, tr6) =
             (case deviceReply of
                None \<Rightarrow> (Inr (), 0, False, tr5)
              | Some (ok, h) \<Rightarrow>
                  (case check kDebug ok ''Could not get WebGPU device.'' tr5 of
                     (Inl e, t) \<Rightarrow> (Inl e, 0, False, t)
                   | (Inr _, t) \<Rightarrow>
                       (Inr (), h, True, t @ [Log kInfo ''Device Request succeeded''])))
      in case r2 of
           Inl e \<Rightarrow> (Inl e, tr6)
         | Inr _ \<Rightarrow>
     (case assert_cpp kDebug deviceEnded ''devData.requestEnded'' of
        Inl e \<Rightarrow> (Inl e, tr6)
      | Inr _ \<Rightarrow>
          (let tr7 = tr6 @ [DeviceSetUncapturedErrorCallback device];
               (queue, tr8) = call wgpu tr7 (DeviceGetQueue device)
           in (Inr \<lparr>Context_instance = instance, Context_adapter = adapter,
                     Context_device = device, Context_queue = queue\<rparr>, tr8)))))))"

section \<open>Readback: Wait and ToCPU\<close>

text \<open>
  The asynchronous part of \<open>ToCPU\<close>. At most one callback is registered and not yet run
  at any time: the work-done callback, then the map callback it registers.

  WebGPU itself is outside the repository, so what it delivers is a parameter of the
  model, \<open>schedule\<close>. A callback runs inside a call of \<open>wgpuInstanceProcessEvents\<close>
  (section 5 of the specification: callbacks are invoked only while the caller pumps the
  event-processing function). The schedule has one list of deliveries per such call, each
  delivery \<open>(ok, mapped)\<close> with \<open>ok\<close> for a \<open>Success\<close> status and \<open>mapped\<close> the pointer
  that \<open>wgpuBufferGetConstMappedRange\<close> returns afterwards. A schedule that ends before
  the future is ready stands for a wait that has not returned yet (\<open>None\<close>).
\<close>

datatype pending = PendingWorkDone | PendingMap

record CopyOp =
  op_trace :: trace
  op_pending :: "pending option"
  op_ready :: bool

text \<open>
  The callback passed to \<open>wgpuQueueOnSubmittedWorkDone\<close>, lines 610-628: check the
  status, then request the mapping and register the second callback.
\<close>

definition onWorkDone :: "bool \<Rightarrow> handle \<Rightarrow> size_t \<Rightarrow> bool \<Rightarrow> CopyOp \<Rightarrow> fault option \<times> CopyOp" where
  "onWorkDone kDebug buffer bufferSize ok st =
     (case check kDebug ok ''Queue work done'' (op_trace st @ [WorkDoneCallback ok]) of
        (Inl e, t) \<Rightarrow> (Some e, st\<lparr>op_trace := t, op_pending := None\<rparr>)
      | (Inr _, t) \<Rightarrow>
          (None, st\<lparr>op_trace := t @ [BufferMapAsync buffer bufferSize],
                    op_pending := Some PendingMap\<rparr>))"

text \<open>
  The callback passed to \<open>wgpuBufferMapAsync\<close>, lines 616-626. \<open>memcpy\<close> from a null
  pointer is undefined behaviour.
\<close>

definition onMapped ::
  "bool \<Rightarrow> handle \<Rightarrow> size_t \<Rightarrow> handle \<Rightarrow> bool \<times> handle \<Rightarrow> CopyOp \<Rightarrow> fault option \<times> CopyOp" where
  "onMapped kDebug buffer bufferSize output d st =
     (case check kDebug (fst d) ''Map readbackBuffer'' (op_trace st @ [MapCallback (fst d)]) of
        (Inl e, t) \<Rightarrow> (Some e, st\<lparr>op_trace := t, op_pending := None\<rparr>)
      | (Inr _, t) \<Rightarrow>
          (case check kDebug (snd d \<noteq> 0) ''Get mapped range''
                  (t @ [BufferGetConstMappedRange buffer bufferSize]) of
             (Inl e, t1) \<Rightarrow> (Some e, st\<lparr>op_trace := t1, op_pending := None\<rparr>)
           | (Inr _, t1) \<Rightarrow>
               if snd d = 0
               then (Some (UB ''memcpy from a null pointer''),
                     st\<lparr>op_trace := t1, op_pending := None\<rparr>)
               else (None, st\<lparr>op_trace := t1 @ [Memcpy output bufferSize, BufferUnmap buffer,
                                               PromiseSetValue],
                               op_pending := None, op_ready := True\<rparr>)))"

text \<open>One call of \<open>wgpuInstanceProcessEvents\<close>: the deliveries of this call, in order.\<close>

fun deliver ::
  "bool \<Rightarrow> handle \<Rightarrow> size_t \<Rightarrow> handle \<Rightarrow> (bool \<times> handle) list \<Rightarrow> CopyOp
   \<Rightarrow> fault option \<times> CopyOp" where
  "deliver kDebug buffer bufferSize output [] st = (None, st)"
| "deliver kDebug buffer bufferSize output (d # ds) st =
     (case op_pending st of
        None \<Rightarrow> (None, st)
      | Some PendingWorkDone \<Rightarrow>
          (case onWorkDone kDebug buffer bufferSize (fst d) st of
             (Some e, st1) \<Rightarrow> (Some e, st1)
           | (None, st1) \<Rightarrow> deliver kDebug buffer bufferSize output ds st1)
      | Some PendingMap \<Rightarrow>
          (case onMapped kDebug buffer bufferSize output d st of
             (Some e, st1) \<Rightarrow> (Some e, st1)
           | (None, st1) \<Rightarrow> deliver kDebug buffer bufferSize output ds st1))"

text \<open>
  \<open>Wait(ctx, future)\<close>, lines 565-570, with the callbacks of \<open>ToCPU\<close>: while the future is
  not ready, call \<open>wgpuInstanceProcessEvents\<close>.
\<close>

fun Wait ::
  "bool \<Rightarrow> handle \<Rightarrow> handle \<Rightarrow> size_t \<Rightarrow> handle \<Rightarrow> (bool \<times> handle) list list \<Rightarrow> CopyOp
   \<Rightarrow> (fault + unit) option \<times> CopyOp" where
  "Wait kDebug instance buffer bufferSize output [] st =
     (if op_ready st then (Some (Inr ()), st) else (None, st))"
| "Wait kDebug instance buffer bufferSize output (tick # schedule) st =
     (if op_ready st then (Some (Inr ()), st)
      else case deliver kDebug buffer bufferSize output tick
                  (st\<lparr>op_trace := op_trace st @ [InstanceProcessEvents instance]\<rparr>) of
             (Some e, st1) \<Rightarrow> (Some (Inl e), st1)
           | (None, st1) \<Rightarrow> Wait kDebug instance buffer bufferSize output schedule st1)"

text \<open>
  \<open>ToCPU(ctx, tensor, data, bufferSize)\<close>, lines 577-631. \<open>output\<close> is the address \<open>data\<close>.
  The result is how the call ended and the trace.
\<close>

definition ToCPU ::
  "bool \<Rightarrow> wgpu \<Rightarrow> (bool \<times> handle) list list \<Rightarrow> trace \<Rightarrow> Context \<Rightarrow> Tensor \<Rightarrow> handle
   \<Rightarrow> size_t \<Rightarrow> (fault + unit) option \<times> trace" where
  "ToCPU kDebug wgpu schedule tr ctx tensor output bufferSize =
     (let device = Context_device ctx;
          (readbackBuffer, tr1) =
             call wgpu tr (DeviceCreateBuffer device
                (or WGPUBufferUsage_CopyDst WGPUBufferUsage_MapRead) bufferSize);
          (commandEncoder, tr2) = call wgpu tr1 (DeviceCreateCommandEncoder device);
          tr3 = tr2 @ [CommandEncoderCopyBufferToBuffer commandEncoder
                         (Array_buffer (Tensor_data tensor)) readbackBuffer bufferSize];
          (commandBuffer, tr4) = call wgpu tr3 (CommandEncoderFinish commandEncoder)
      in case check kDebug (commandBuffer \<noteq> 0) ''Create command buffer'' tr4 of
           (Inl e, tr5) \<Rightarrow> (Some (Inl e), tr5)
         | (Inr _, tr5) \<Rightarrow>
             (let tr6 = tr5 @ [QueueSubmit (Context_queue ctx) commandBuffer,
                               QueueOnSubmittedWorkDone (Context_queue ctx)];
                  (r, st) = Wait kDebug (Context_instance ctx) readbackBuffer bufferSize output
                              schedule
                              \<lparr>op_trace = tr6, op_pending = Some PendingWorkDone,
                               op_ready = False\<rparr>
              in (r, op_trace st)))"

section \<open>Sample inputs\<close>

text \<open>A WebGPU that answers every call with a fresh non-null handle.\<close>

definition wgpu_fresh :: wgpu where
  "wgpu_fresh tr = Suc (length tr)"

definition ctx0 :: Context where
  "ctx0 = \<lparr>Context_instance = 1, Context_adapter = 2, Context_device = 3, Context_queue = 4\<rparr>"

definition shape_234 :: Shape where
  "shape_234 = \<lparr>Shape_data = [2, 3, 4, 0, 0, 0, 0, 0], Shape_rank = 3\<rparr>"

definition shape_overflow :: Shape where
  "shape_overflow =
     \<lparr>Shape_data = [4294967296, 4294967296, 0, 0, 0, 0, 0, 0], Shape_rank = 2\<rparr>"

definition shape_1000 :: Shape where
  "shape_1000 = \<lparr>Shape_data = [1000, 1, 1, 0, 0, 0, 0, 0], Shape_rank = 3\<rparr>"

definition shape_256 :: Shape where
  "shape_256 = \<lparr>Shape_data = [256, 1, 1, 0, 0, 0, 0, 0], Shape_rank = 3\<rparr>"

definition shape_max :: Shape where
  "shape_max = \<lparr>Shape_data = [18446744073709551615, 1, 1, 0, 0, 0, 0, 0], Shape_rank = 3\<rparr>"

definition shape_2 :: Shape where
  "shape_2 = \<lparr>Shape_data = [2, 1, 1, 0, 0, 0, 0, 0], Shape_rank = 3\<rparr>"

definition shader_256 :: ShaderCode where
  "shader_256 = \<lparr>ShaderCode_data = ''fn main() {}'', ShaderCode_workgroupSize = shape_256,
                  ShaderCode_precision = kf32\<rparr>"

definition shader_2 :: ShaderCode where
  "shader_2 = \<lparr>ShaderCode_data = ''fn main() {}'', ShaderCode_workgroupSize = shape_2,
                ShaderCode_precision = kf32\<rparr>"

definition tensor_5 :: Tensor where
  "tensor_5 = \<lparr>Tensor_data = \<lparr>Array_buffer = 5, Array_usage = 140, Array_size = 96\<rparr>,
                Tensor_shape = shape_234\<rparr>"

text \<open>Recognisers of events, for counting and ordering them in a trace.\<close>

fun is_CreateBindGroupLayout :: "event \<Rightarrow> bool" where
  "is_CreateBindGroupLayout (DeviceCreateBindGroupLayout d es) = True"
| "is_CreateBindGroupLayout _ = False"

fun is_CreateBuffer :: "event \<Rightarrow> bool" where
  "is_CreateBuffer (DeviceCreateBuffer d u n) = True"
| "is_CreateBuffer _ = False"















section \<open>Shapes and tensors\<close>

lemma size_loop_prod:
  "Shape_rank s \<le> length (Shape_data s) \<Longrightarrow> i \<le> Shape_rank s \<Longrightarrow>
   size_loop s i acc = Inr (acc * prod_list (drop i (take (Shape_rank s) (Shape_data s))))"
proof (induction s i acc rule: size_loop.induct)
  case (1 shape i numels)
  show ?case
  proof (cases "i < Shape_rank shape")
    case True
    then have il: "i < length (Shape_data shape)" using 1(2) by simp
    have "drop i (take (Shape_rank shape) (Shape_data shape)) =
          Shape_data shape ! i # drop (Suc i) (take (Shape_rank shape) (Shape_data shape))"
      using True il by (simp add: Cons_nth_drop_Suc [symmetric])
    then show ?thesis
      using 1(1) [OF True il 1(2)] True il
      by (subst size_loop.simps) (simp add: mult.assoc)
  next
    case False
    then have "i = Shape_rank shape" using 1(3) by simp
    then show ?thesis by (subst size_loop.simps) simp
  qed
qed

lemma numElements_loop_prod:
  "Shape_rank s \<le> length (Shape_data s) \<Longrightarrow> i \<le> Shape_rank s \<Longrightarrow>
   numElements_loop s i acc =
     Inr (acc * prod_list (drop i (take (Shape_rank s) (Shape_data s))))"
proof (induction s i acc rule: numElements_loop.induct)
  case (1 shape i numels)
  show ?case
  proof (cases "i < Shape_rank shape")
    case True
    then have il: "i < length (Shape_data shape)" using 1(2) by simp
    have "drop i (take (Shape_rank shape) (Shape_data shape)) =
          Shape_data shape ! i # drop (Suc i) (take (Shape_rank shape) (Shape_data shape))"
      using True il by (simp add: Cons_nth_drop_Suc [symmetric])
    then show ?thesis
      using 1(1) [OF True il 1(2)] True il
      by (subst numElements_loop.simps) (simp add: mult.assoc)
  next
    case False
    then have "i = Shape_rank shape" using 1(3) by simp
    then show ?thesis by (subst numElements_loop.simps) simp
  qed
qed

lemma unat_prod_list:
  "unat (prod_list (ws :: size_t list)) = prod_list (map unat ws) mod 2 ^ 64"
proof (induction ws)
  case Nil
  then show ?case by simp
next
  case (Cons w ws)
  then show ?case
    by (simp add: unat_word_ariths mod_mult_right_eq)
qed

lemma Shape_ok_rank: "Shape_ok s \<Longrightarrow> Shape_rank s \<le> length (Shape_data s)"
  by (simp add: Shape_ok_def)

lemma size_Shape_prod:
  "Shape_ok s \<Longrightarrow> size_Shape s = Inr (prod_list (Shape_dims s))"
  by (simp add: size_Shape_def Shape_dims_def size_loop_prod Shape_ok_rank)

lemma CreateTensor_result:
  assumes "Shape_ok shape"
  shows "CreateTensor wgpu pool tr device shape dtype usage =
     (let size = CreateTensor_size dtype (prod_list (Shape_dims shape));
          ev = DeviceCreateBuffer device usage size;
          buffer = wgpu (tr @ [Log kTrace ''Creating tensor'', ev]);
          t = \<lparr>Tensor_data = \<lparr>Array_buffer = buffer, Array_usage = usage, Array_size = size\<rparr>,
               Tensor_shape = shape\<rparr>
      in Inr (t, fmupd buffer t pool, tr @ [Log kTrace ''Creating tensor'', ev, ev]))"
  using assms
  by (simp add: CreateTensor_def numElements_loop_prod Shape_dims_def Let_def Shape_ok_rank)

lemma Shape_ok_samples:
  "Shape_ok shape_234" "Shape_ok shape_overflow" "Shape_ok shape_1000" "Shape_ok shape_256"
  "Shape_ok shape_max" "Shape_ok shape_2" "Shape_ok Shape_default"
  by (simp_all add: Shape_ok_def kMaxRank_def shape_234_def shape_overflow_def shape_1000_def
        shape_256_def shape_max_def shape_2_def Shape_default_def)

lemma Shape_dims_samples:
  "Shape_dims shape_234 = [2, 3, 4]"
  "Shape_dims shape_overflow = [4294967296, 4294967296]"
  "Shape_dims Shape_default = []"
  by (simp_all add: Shape_dims_def shape_234_def shape_overflow_def Shape_default_def)

lemma size_Shape_samples:
  "size_Shape shape_234 = Inr 24"
  "size_Shape shape_overflow = Inr 0"
  "size_Shape Shape_default = Inr 1"
  by (simp_all add: size_Shape_prod Shape_ok_samples Shape_dims_samples)

lemma CreateTensor_sample:
  "CreateTensor wgpu_fresh fmempty [] 3 shape_234 kf32 140 =
     Inr (\<lparr>Tensor_data = \<lparr>Array_buffer = 3, Array_usage = 140, Array_size = 96\<rparr>,
            Tensor_shape = shape_234\<rparr>,
          fmupd 3 \<lparr>Tensor_data = \<lparr>Array_buffer = 3, Array_usage = 140, Array_size = 96\<rparr>,
                    Tensor_shape = shape_234\<rparr> fmempty,
          [Log kTrace ''Creating tensor'', DeviceCreateBuffer 3 140 96,
           DeviceCreateBuffer 3 140 96])"
  by (simp add: CreateTensor_result Shape_ok_samples Let_def CreateTensor_size_def
        Shape_dims_samples wgpu_fresh_def numeral_3_eq_3)

text \<open>
  C7, as amended. For every shape of rank at most \<open>kMaxRank\<close>, \<open>size\<close> returns the product of
  the dimensions reduced modulo \<open>2 ^ 64\<close> (the arithmetic of \<open>size_t\<close> wraps), which is the
  exact product whenever that is below \<open>2 ^ 64\<close>; the empty shape gives 1. \<open>CreateTensor\<close>
  computes the byte size as 4 times that count, again modulo \<open>2 ^ 64\<close>, for \<open>kf32\<close>, and
  0 for any other numeric kind, without failing.
\<close>

theorem size_and_byte_size_mod:
  assumes "Shape_ok S"
  shows "\<exists>n. size_Shape S = Inr n \<and>
             unat n = prod_list (map unat (Shape_dims S)) mod 2 ^ 64 \<and>
             (prod_list (map unat (Shape_dims S)) < 2 ^ 64 \<longrightarrow>
                unat n = prod_list (map unat (Shape_dims S))) \<and>
             (Shape_rank S = 0 \<longrightarrow> n = 1) \<and>
             (\<exists>t pool1 tr1.
                CreateTensor wgpu pool tr device S dtype usage = Inr (t, pool1, tr1) \<and>
                unat (Array_size (Tensor_data t)) =
                  (if dtype = kf32 then (4 * unat n) mod 2 ^ 64 else 0))"
  using assms
  by (simp add: size_Shape_prod CreateTensor_result Let_def unat_prod_list
        CreateTensor_size_def unat_word_ariths Shape_dims_def)

theorem size_and_byte_size_mod_witness:
  "Shape_ok shape_234 \<and>
   (\<exists>n. size_Shape shape_234 = Inr n \<and> unat n = 24 \<and>
      (\<exists>t pool1 tr1.
         CreateTensor wgpu_fresh fmempty [] 3 shape_234 kf32 140 = Inr (t, pool1, tr1) \<and>
         unat (Array_size (Tensor_data t)) = 96))"
  using size_and_byte_size_mod [OF Shape_ok_samples(1), of wgpu_fresh fmempty "[]" 3 kf32 140]
  by (simp add: Shape_ok_samples Shape_dims_samples size_Shape_samples CreateTensor_sample)

text \<open>
  The claim as stated fails where the product wraps: the shape \<open>{2^32, 2^32}\<close> has
  \<open>2 ^ 64\<close> elements and \<open>size\<close> returns 0.
\<close>

theorem size_Shape_overflow_counterexample:
  "size_Shape shape_overflow = Inr 0 \<and>
   prod_list (map unat (Shape_dims shape_overflow)) = 18446744073709551616"
  by (simp add: size_Shape_samples Shape_dims_samples)

text \<open>
  C4. \<open>CreateTensor\<close> registers one pool entry under the handle of the buffer it created
  and returns that entry, but it calls \<open>wgpuDeviceCreateBuffer\<close> twice with the same
  descriptor (lines 293 and 298): two device buffers are allocated, and the handle of the
  second is dropped.
\<close>

theorem CreateTensor_creates_two_buffers:
  assumes "Shape_ok shape"
  shows "\<exists>t pool1 tr1.
           CreateTensor wgpu pool tr device shape dtype usage = Inr (t, pool1, tr1) \<and>
           fmlookup pool1 (Array_buffer (Tensor_data t)) = Some t \<and>
           length (filter is_CreateBuffer tr1) = length (filter is_CreateBuffer tr) + 2"
  using assms by (simp add: CreateTensor_result Let_def)

theorem CreateTensor_creates_two_buffers_witness:
  "Shape_ok shape_234 \<and>
   (\<exists>t pool1 tr1.
      CreateTensor wgpu_fresh fmempty [] 3 shape_234 kf32 140 = Inr (t, pool1, tr1) \<and>
      length (filter is_CreateBuffer tr1) = 2)"
  using CreateTensor_creates_two_buffers [OF Shape_ok_samples(1), of wgpu_fresh fmempty "[]" 3 kf32 140]
  by (simp add: Shape_ok_samples CreateTensor_sample)

section \<open>FreeTensor\<close>

text \<open>
  C5, as amended. \<open>FreeTensor\<close> tests the handle and the pool independently. A non-null
  handle is released exactly once, whether or not the pool knows it; a registered handle
  has its entry removed, whether or not it is null; each test that fails logs its own
  warning. So: non-null and registered, one release and then the removal, no warning;
  non-null and not registered, the buffer is released all the same, a warning is logged
  and the pool is unchanged; null and not registered, two warnings and nothing else; null
  and registered, one warning and the entry under the null key is removed. The call
  always returns and entries under other keys are untouched.
\<close>

theorem FreeTensor_cases:
  assumes "FreeTensor pool tr t = (pool1, tr1)"
  shows "(let b = Array_buffer (Tensor_data t) in
     (b \<noteq> 0 \<and> fmlookup pool b \<noteq> None \<longrightarrow>
        pool1 = fmdrop b pool \<and> tr1 = tr @ [BufferRelease b]) \<and>
     (b \<noteq> 0 \<and> fmlookup pool b = None \<longrightarrow>
        pool1 = pool \<and>
        tr1 = tr @ [BufferRelease b, Log kWarn ''Tried to free tensor that was not in pool'']) \<and>
     (b = 0 \<and> fmlookup pool b = None \<longrightarrow>
        pool1 = pool \<and>
        tr1 = tr @ [Log kWarn ''Tried to free tensor with null buffer'',
                    Log kWarn ''Tried to free tensor that was not in pool'']) \<and>
     (b = 0 \<and> fmlookup pool b \<noteq> None \<longrightarrow>
        pool1 = fmdrop b pool \<and>
        tr1 = tr @ [Log kWarn ''Tried to free tensor with null buffer'']) \<and>
     fmlookup pool1 b = None \<and>
     (\<forall>k. k \<noteq> b \<longrightarrow> fmlookup pool1 k = fmlookup pool k))"
  using assms by (auto simp: FreeTensor_def Let_def split: if_splits)

theorem FreeTensor_cases_witness:
  "FreeTensor (fmupd 5 tensor_5 fmempty) [] tensor_5 = (fmdrop 5 (fmupd 5 tensor_5 fmempty), [BufferRelease 5]) \<and>
   fmlookup (fmdrop 5 (fmupd 5 tensor_5 fmempty)) 5 = None"
  using FreeTensor_cases [of "fmupd 5 tensor_5 fmempty" "[]" tensor_5
          "fst (FreeTensor (fmupd 5 tensor_5 fmempty) [] tensor_5)"
          "snd (FreeTensor (fmupd 5 tensor_5 fmempty) [] tensor_5)"]
  by (simp add: tensor_5_def Let_def prod_eq_iff)

text \<open>
  The claim as stated fails for a non-null handle that the pool does not hold: the pool
  is empty, and the buffer 5 is released.
\<close>

theorem FreeTensor_absent_counterexample:
  "fmlookup fmempty (Array_buffer (Tensor_data tensor_5)) = (None :: Tensor option) \<and>
   FreeTensor fmempty [] tensor_5 =
     (fmempty, [BufferRelease 5, Log kWarn ''Tried to free tensor that was not in pool''])"
  by (simp add: FreeTensor_def tensor_5_def Let_def)

section \<open>Context creation\<close>

lemma CreateContext_release:
  "\<exists>ctx. fst (CreateContext False wgpu adapterReply deviceReply tr) = Inr ctx"
  by (simp add: CreateContext_def check_def assert_cpp_def call_def Let_def
        split: option.splits prod.splits)









section \<open>Kernel construction\<close>

lemma fold_update_upt:
  "n \<le> length es0 \<Longrightarrow>
   fold (\<lambda>i es. es[i := f i]) [0..<n] es0 = map f [0..<n] @ drop n es0"
proof (induction n)
  case 0
  then show ?case by simp
next
  case (Suc n)
  then have n: "n < length es0" by simp
  have "(map f [0..<n] @ drop n es0)[n := f n] = map f [0..<n] @ (drop n es0)[0 := f n]"
    by (simp add: list_update_append)
  also have "(drop n es0)[0 := f n] = f n # drop (Suc n) es0"
    using n by (simp add: Cons_nth_drop_Suc [symmetric])
  finally show ?case using Suc by simp
qed

lemma drop_Cons_replicate: "drop n (x # replicate n x) = [x]"
  by (induction n) simp_all

lemma bgLayoutEntries_eq:
  "bgLayoutEntries inputs paramsSize =
     map (bgLayoutEntry_input inputs) [0..<length inputs] @
     (if paramsSize > 0
      then [\<lparr>layout_binding = of_nat (length inputs), layout_type = BindingType_Uniform,
              layout_minBindingSize = paramsSize\<rparr>]
      else [])"
  by (simp add: bgLayoutEntries_def Let_def fold_update_upt list_update_append
        drop_Cons_replicate)

lemma ceil_div_nat:
  fixes a b :: nat
  assumes "0 < b"
  shows "int ((a + b - 1) div b) = \<lceil>real a / real b\<rceil>"
proof -
  define c where "c = (a + b - 1) div b"
  have "c * b + (a + b - 1) mod b = a + b - 1"
    by (simp add: c_def)
  moreover have "(a + b - 1) mod b < b"
    using assms by simp
  ultimately have lo: "a \<le> c * b" and hi: "c * b < a + b"
    using assms by linarith+
  have "real a \<le> real (c * b)"
    using lo by (simp only: of_nat_le_iff)
  then have up: "real a / real b \<le> real c"
    using assms by (simp add: divide_le_eq)
  have "real (c * b) < real (a + b)"
    using hi by (simp only: of_nat_less_iff)
  then have "(real c - 1) * real b < real a"
    by (simp add: algebra_simps)
  then have down: "real c - 1 < real a / real b"
    using assms by (simp add: less_divide_eq)
  have "\<lceil>real a / real b\<rceil> = int c"
    by (rule ceiling_unique) (use up down in simp_all)
  then show ?thesis by (simp add: c_def)
qed

lemma unat_ceil_div:
  fixes n w :: size_t
  assumes "w \<noteq> 0" "unat n + unat w - 1 < 2 ^ 64"
  shows "unat ((n + (w - 1)) div w) = (unat n + unat w - 1) div unat w"
proof -
  have w1: "unat (w - 1) = unat w - 1"
    using assms(1) by (simp add: unat_minus_one)
  have "0 < unat w"
    using assms(1) by (simp add: unat_gt_0)
  then have "unat n + unat (w - 1) < 2 ^ LENGTH(64)"
    using assms(2) w1 by simp
  then have "unat (n + (w - 1)) = unat n + unat (w - 1)"
    by (simp only: unat_add_lem)
  then show ?thesis
    using w1 \<open>0 < unat w\<close> by (simp add: unat_div)
qed

lemma ResetCommandBuffer_Inr:
  assumes "ResetCommandBuffer kDebug wgpu tr device nThreads op = (Inr op1, tr1)"
  shows "\<exists>c evs. op1 = op\<lparr>Kernel_commandBuffer := c\<rparr> \<and> tr1 = tr @ evs \<and>
                 filter is_CreateBindGroupLayout evs = []"
  using assms
  by (auto simp: ResetCommandBuffer_def Let_def call_def check_def
           split: sum.splits if_splits prod.splits)

lemma CreateKernel_pipeline_numBindings:
  "Kernel_numBindings (fst (CreateKernel_pipeline wgpu tr ctx shader inputs paramsSize)) =
     (if paramsSize > 0 then length inputs + 1 else length inputs)"
  by (simp add: CreateKernel_pipeline_def Let_def call_def split: prod.splits)

lemma CreateKernel_pipeline_trace:
  "\<exists>evs. snd (CreateKernel_pipeline wgpu tr ctx shader inputs paramsSize) = tr @ evs \<and>
      filter is_CreateBindGroupLayout evs =
        [DeviceCreateBindGroupLayout (Context_device ctx) (bgLayoutEntries inputs paramsSize)]"
  by (simp add: CreateKernel_pipeline_def Let_def call_def split: prod.splits)

lemma CreateKernel_Inr:
  assumes "CreateKernel kDebug wgpu tr ctx shader inputs nThreads paramsSize = (Inr op, tr1)"
  shows "Kernel_numBindings op = (if paramsSize > 0 then length inputs + 1 else length inputs)"
    and "nWorkgroups_of kDebug nThreads (ShaderCode_workgroupSize shader) =
           Inr (Kernel_nWorkgroups op)"
    and "\<exists>evs. tr1 = tr @ evs \<and> filter is_CreateBindGroupLayout evs =
           [DeviceCreateBindGroupLayout (Context_device ctx) (bgLayoutEntries inputs paramsSize)]"
    and "kDebug \<longrightarrow> Shape_rank nThreads = 3"
proof -
  obtain op0 tr11 where
    p: "CreateKernel_pipeline wgpu tr ctx shader inputs paramsSize = (op0, tr11)"
    by (cases "CreateKernel_pipeline wgpu tr ctx shader inputs paramsSize")
  from assms have r: "\<not> (kDebug \<and> Shape_rank nThreads \<noteq> 3)"
    by (auto simp: CreateKernel_def assert_cpp_def split: if_splits)
  then show "kDebug \<longrightarrow> Shape_rank nThreads = 3" by simp
  from assms r p obtain nw where
    nw: "nWorkgroups_of kDebug nThreads (ShaderCode_workgroupSize shader) = Inr nw"
    by (cases "nWorkgroups_of kDebug nThreads (ShaderCode_workgroupSize shader)")
       (auto simp: CreateKernel_def assert_cpp_def)
  from assms r p nw obtain tr12 where
    rc: "ResetCommandBuffer kDebug wgpu tr11 (Context_device ctx) nThreads
           (op0\<lparr>Kernel_nWorkgroups := nw\<rparr>) = (Inr op, tr12)"
    and t1: "tr1 = tr12 @ [KernelPoolInsert, Log kInfo ''Exiting CreateKernel'']"
    by (auto simp: CreateKernel_def assert_cpp_def split: sum.splits prod.splits)
  from ResetCommandBuffer_Inr [OF rc] obtain c evs where
    op: "op = op0\<lparr>Kernel_nWorkgroups := nw, Kernel_commandBuffer := c\<rparr>"
    and t12: "tr12 = tr11 @ evs" and f: "filter is_CreateBindGroupLayout evs = []"
    by auto
  from op nw show "nWorkgroups_of kDebug nThreads (ShaderCode_workgroupSize shader) =
           Inr (Kernel_nWorkgroups op)" by simp
  from op CreateKernel_pipeline_numBindings [of wgpu tr ctx shader inputs paramsSize] p
  show "Kernel_numBindings op = (if paramsSize > 0 then length inputs + 1 else length inputs)"
    by simp
  from CreateKernel_pipeline_trace [of wgpu tr ctx shader inputs paramsSize] p
  obtain evs0 where "tr11 = tr @ evs0" and "filter is_CreateBindGroupLayout evs0 =
        [DeviceCreateBindGroupLayout (Context_device ctx) (bgLayoutEntries inputs paramsSize)]"
    by auto
  with t1 t12 f show "\<exists>evs. tr1 = tr @ evs \<and> filter is_CreateBindGroupLayout evs =
           [DeviceCreateBindGroupLayout (Context_device ctx) (bgLayoutEntries inputs paramsSize)]"
    by simp
qed

lemma replicate_5: "replicate 5 x = [x, x, x, x, x]"
  by (simp add: eval_nat_numeral)

lemma nWorkgroups_axis_Inr:
  assumes "nWorkgroups_axis kDebug nThreads workgroupSize axis = Inr c"
  shows "Shape_data workgroupSize ! axis \<noteq> 0 \<and>
         c = (Shape_data nThreads ! axis + (Shape_data workgroupSize ! axis - 1))
               div Shape_data workgroupSize ! axis"
  using assms
  by (auto simp: nWorkgroups_axis_def Shape_at_def assert_cpp_def split: sum.splits if_splits)

lemma nWorkgroups_of_Inr:
  assumes "nWorkgroups_of kDebug nThreads workgroupSize = Inr s"
  shows "\<exists>x y z. nWorkgroups_axis kDebug nThreads workgroupSize 0 = Inr x \<and>
                 nWorkgroups_axis kDebug nThreads workgroupSize 1 = Inr y \<and>
                 nWorkgroups_axis kDebug nThreads workgroupSize 2 = Inr z \<and>
                 s = \<lparr>Shape_data = [x, y, z, 0, 0, 0, 0, 0], Shape_rank = 3\<rparr>"
  using assms
  by (auto simp: nWorkgroups_of_def Shape_init_def kMaxRank_def replicate_5 split: sum.splits)

lemma nWorkgroups_of_axis:
  assumes "nWorkgroups_of kDebug nThreads workgroupSize = Inr s" and "axis < 3"
  shows "nWorkgroups_axis kDebug nThreads workgroupSize axis = Inr (Shape_data s ! axis)"
proof -
  from assms(2) have "axis = 0 \<or> axis = 1 \<or> axis = 2" by linarith
  with nWorkgroups_of_Inr [OF assms(1)] show ?thesis by auto
qed

lemma ToString_loop_Inr:
  "Shape_rank s \<le> length (Shape_data s) \<Longrightarrow> \<exists>r. ToString_loop s i str = Inr r"
proof (induction s i str rule: ToString_loop.induct)
  case (1 shape i str)
  show ?case
  proof (cases "i < Shape_rank shape")
    case True
    then have il: "i < length (Shape_data shape)" using 1(2) by simp
    show ?thesis
      using 1(1) [OF True il refl refl 1(2)] True il
      by (subst ToString_loop.simps) (simp add: Let_def)
  next
    case False
    then show ?thesis by (subst ToString_loop.simps) simp
  qed
qed

lemma nWorkgroups_axis_returns:
  assumes "axis < Shape_rank nThreads" "axis < Shape_rank ws"
    "Shape_rank nThreads \<le> length (Shape_data nThreads)" "Shape_rank ws \<le> length (Shape_data ws)"
    "Shape_data ws ! axis \<noteq> 0"
  shows "nWorkgroups_axis kDebug nThreads ws axis =
     Inr ((Shape_data nThreads ! axis + (Shape_data ws ! axis - 1)) div Shape_data ws ! axis)"
  using assms by (simp add: nWorkgroups_axis_def Shape_at_def assert_cpp_def)

lemma nWorkgroups_of_returns:
  assumes "Shape_ok nThreads" "Shape_ok ws" "Shape_rank nThreads = 3" "Shape_rank ws = 3"
    "Shape_data ws ! 0 \<noteq> 0" "Shape_data ws ! 1 \<noteq> 0" "Shape_data ws ! 2 \<noteq> 0"
  shows "nWorkgroups_of kDebug nThreads ws =
     Inr \<lparr>Shape_data =
            [(Shape_data nThreads ! 0 + (Shape_data ws ! 0 - 1)) div Shape_data ws ! 0,
             (Shape_data nThreads ! 1 + (Shape_data ws ! 1 - 1)) div Shape_data ws ! 1,
             (Shape_data nThreads ! 2 + (Shape_data ws ! 2 - 1)) div Shape_data ws ! 2,
             0, 0, 0, 0, 0],
          Shape_rank = 3\<rparr>"
proof -
  have len: "length (Shape_data nThreads) = 8" "length (Shape_data ws) = 8"
    using assms(1,2) by (simp_all add: Shape_ok_def kMaxRank_def)
  have ax: "\<And>a. a < 3 \<Longrightarrow> Shape_data ws ! a \<noteq> 0 \<Longrightarrow>
      nWorkgroups_axis kDebug nThreads ws a =
        Inr ((Shape_data nThreads ! a + (Shape_data ws ! a - 1)) div Shape_data ws ! a)"
    using assms(3,4) len by (simp add: nWorkgroups_axis_returns)
  show ?thesis
    using ax [of 0] ax [of 1] ax [of 2] assms(5-7)
    by (simp add: nWorkgroups_of_def Shape_init_def kMaxRank_def replicate_5)
qed

lemma ResetCommandBuffer_returns:
  assumes "Shape_ok nThreads" "Shape_ok (Kernel_nWorkgroups op)"
    "Shape_rank (Kernel_nWorkgroups op) = 3" "\<forall>t. wgpu t \<noteq> 0"
  shows "\<exists>op1 tr1. ResetCommandBuffer kDebug wgpu tr device nThreads op = (Inr op1, tr1)"
proof -
  from ToString_loop_Inr [OF Shape_ok_rank [OF assms(1)], of 0 "[]"]
  obtain s where s: "ToString_Shape nThreads = Inr s"
    by (auto simp: ToString_Shape_def)
  have at: "\<And>a. a < 3 \<Longrightarrow> Shape_at kDebug (Kernel_nWorkgroups op) a =
              Inr (Shape_data (Kernel_nWorkgroups op) ! a)"
    using assms(2,3) by (simp add: Shape_at_def assert_cpp_def Shape_ok_def kMaxRank_def)
  show ?thesis
    using s at [of 0] at [of 1] at [of 2] assms(4)
    by (simp add: ResetCommandBuffer_def Let_def call_def check_def split: prod.splits)
qed

lemma CreateKernel_returns:
  assumes "Shape_ok nThreads" "Shape_ok (ShaderCode_workgroupSize shader)"
    "Shape_rank nThreads = 3" "Shape_rank (ShaderCode_workgroupSize shader) = 3"
    "Shape_data (ShaderCode_workgroupSize shader) ! 0 \<noteq> 0"
    "Shape_data (ShaderCode_workgroupSize shader) ! 1 \<noteq> 0"
    "Shape_data (ShaderCode_workgroupSize shader) ! 2 \<noteq> 0"
    "\<forall>t. wgpu t \<noteq> 0"
  shows "\<exists>op tr1. CreateKernel kDebug wgpu tr ctx shader inputs nThreads paramsSize = (Inr op, tr1)"
proof -
  obtain op0 tr11 where
    p: "CreateKernel_pipeline wgpu tr ctx shader inputs paramsSize = (op0, tr11)"
    by (cases "CreateKernel_pipeline wgpu tr ctx shader inputs paramsSize")
  note nw = nWorkgroups_of_returns [OF assms(1-7), of kDebug]
  let ?nw = "\<lparr>Shape_data =
            [(Shape_data nThreads ! 0 + (Shape_data (ShaderCode_workgroupSize shader) ! 0 - 1))
               div Shape_data (ShaderCode_workgroupSize shader) ! 0,
             (Shape_data nThreads ! 1 + (Shape_data (ShaderCode_workgroupSize shader) ! 1 - 1))
               div Shape_data (ShaderCode_workgroupSize shader) ! 1,
             (Shape_data nThreads ! 2 + (Shape_data (ShaderCode_workgroupSize shader) ! 2 - 1))
               div Shape_data (ShaderCode_workgroupSize shader) ! 2,
             0, 0, 0, 0, 0],
          Shape_rank = 3\<rparr>"
  have ok: "Shape_ok (Kernel_nWorkgroups (op0\<lparr>Kernel_nWorkgroups := ?nw\<rparr>))"
    and rk: "Shape_rank (Kernel_nWorkgroups (op0\<lparr>Kernel_nWorkgroups := ?nw\<rparr>)) = 3"
    by (simp_all add: Shape_ok_def kMaxRank_def)
  from ResetCommandBuffer_returns [OF assms(1) ok rk assms(8)]
  obtain op1 tr12 where "ResetCommandBuffer kDebug wgpu tr11 (Context_device ctx) nThreads
      (op0\<lparr>Kernel_nWorkgroups := ?nw\<rparr>) = (Inr op1, tr12)" by blast
  then show ?thesis
    using p nw assms(3) by (simp add: CreateKernel_def assert_cpp_def)
qed

lemma Shape_at_fault:
  "Shape_at kDebug s i = Inl e \<Longrightarrow> e \<noteq> AssertFailed ''nThreads.rank == 3''"
  by (auto simp: Shape_at_def assert_cpp_def split: sum.splits if_splits)

lemma check_fault:
  "check kDebug c m tr = (Inl e, tr1) \<Longrightarrow> e = Exit1 m"
  by (auto simp: check_def split: if_splits)

lemma nWorkgroups_axis_fault:
  "nWorkgroups_axis kDebug nThreads workgroupSize axis = Inl e \<Longrightarrow>
   e \<noteq> AssertFailed ''nThreads.rank == 3''"
  by (auto simp: nWorkgroups_axis_def Shape_at_def assert_cpp_def split: sum.splits if_splits)

lemma nWorkgroups_of_fault:
  "nWorkgroups_of kDebug nThreads workgroupSize = Inl e \<Longrightarrow>
   e \<noteq> AssertFailed ''nThreads.rank == 3''"
  by (auto simp: nWorkgroups_of_def Shape_init_def kMaxRank_def split: sum.splits
           dest: nWorkgroups_axis_fault)

lemma ToString_loop_fault:
  "ToString_loop s i str = Inl e \<Longrightarrow> e = UB ''shape.data[i] out of range''"
proof (induction s i str rule: ToString_loop.induct)
  case (1 shape i str)
  note unfold = ToString_loop.simps [of shape i str]
  show ?case
  proof (cases "i < Shape_rank shape")
    case True
    show ?thesis
    proof (cases "i < length (Shape_data shape)")
      case il: True
      show ?thesis
        using 1(2) 1(1) [OF True il refl refl] unfold True il
        by (simp add: Let_def)
    next
      case False
      then show ?thesis using 1(2) unfold True by simp
    qed
  next
    case False
    then show ?thesis using 1(2) unfold by simp
  qed
qed

lemma ResetCommandBuffer_fault:
  assumes "ResetCommandBuffer kDebug wgpu tr device nThreads op = (Inl e, tr1)"
  shows "e \<noteq> AssertFailed ''nThreads.rank == 3''"
proof (cases "ToString_Shape nThreads")
  case (Inl a)
  then show ?thesis
    using assms ToString_loop_fault [of nThreads 0 "[]" a]
    by (auto simp: ResetCommandBuffer_def Let_def ToString_Shape_def split: prod.splits)
next
  case (Inr s)
  show ?thesis
  proof (cases "Shape_at kDebug (Kernel_nWorkgroups op) 0")
    case (Inl a)
    then show ?thesis using assms Inr Shape_at_fault [OF Inl]
      by (auto simp: ResetCommandBuffer_def Let_def split: prod.splits)
  next
    case x: (Inr x)
    show ?thesis
    proof (cases "Shape_at kDebug (Kernel_nWorkgroups op) 1")
      case (Inl a)
      then show ?thesis using assms Inr x Shape_at_fault [OF Inl]
        by (auto simp: ResetCommandBuffer_def Let_def split: prod.splits)
    next
      case y: (Inr y)
      show ?thesis
      proof (cases "Shape_at kDebug (Kernel_nWorkgroups op) 2")
        case (Inl a)
        then show ?thesis using assms Inr x y Shape_at_fault [OF Inl]
          by (auto simp: ResetCommandBuffer_def Let_def split: prod.splits)
      next
        case z: (Inr z)
        then show ?thesis using assms Inr x y
          by (auto simp: ResetCommandBuffer_def Let_def split: prod.splits sum.splits
                   dest!: check_fault)
      qed
    qed
  qed
qed

lemma CreateKernel_assert_iff:
  "fst (CreateKernel kDebug wgpu tr ctx shader inputs nThreads paramsSize) =
     Inl (AssertFailed ''nThreads.rank == 3'') \<longleftrightarrow> kDebug \<and> Shape_rank nThreads \<noteq> 3"
proof (cases "kDebug \<and> Shape_rank nThreads \<noteq> 3")
  case True
  then show ?thesis by (simp add: CreateKernel_def assert_cpp_def)
next
  case False
  obtain op0 tr11 where
    p: "CreateKernel_pipeline wgpu tr ctx shader inputs paramsSize = (op0, tr11)"
    by (cases "CreateKernel_pipeline wgpu tr ctx shader inputs paramsSize")
  have "fst (CreateKernel kDebug wgpu tr ctx shader inputs nThreads paramsSize) \<noteq>
     Inl (AssertFailed ''nThreads.rank == 3'')"
  proof (cases "nWorkgroups_of kDebug nThreads (ShaderCode_workgroupSize shader)")
    case (Inl a)
    then show ?thesis using False p nWorkgroups_of_fault [OF Inl]
      by (auto simp: CreateKernel_def assert_cpp_def)
  next
    case nw: (Inr nw)
    obtain r tr12 where rc: "ResetCommandBuffer kDebug wgpu tr11 (Context_device ctx) nThreads
           (op0\<lparr>Kernel_nWorkgroups := nw\<rparr>) = (r, tr12)"
      by (cases "ResetCommandBuffer kDebug wgpu tr11 (Context_device ctx) nThreads
           (op0\<lparr>Kernel_nWorkgroups := nw\<rparr>)")
    show ?thesis
    proof (cases r)
      case (Inl a)
      with rc have "a \<noteq> AssertFailed ''nThreads.rank == 3''"
        using ResetCommandBuffer_fault by blast
      then show ?thesis using False p nw rc Inl
        by (auto simp: CreateKernel_def assert_cpp_def)
    next
      case (Inr b)
      then show ?thesis using False p nw rc
        by (auto simp: CreateKernel_def assert_cpp_def)
    qed
  qed
  with False show ?thesis by simp
qed

lemma CreateKernel_assert_trace:
  "kDebug \<and> Shape_rank nThreads \<noteq> 3 \<Longrightarrow>
   CreateKernel kDebug wgpu tr ctx shader inputs nThreads paramsSize =
     (Inl (AssertFailed ''nThreads.rank == 3''), tr)"
  by (simp add: CreateKernel_def assert_cpp_def)

lemma wgpu_fresh_nonnull: "\<forall>t. wgpu_fresh t \<noteq> 0"
  by (simp add: wgpu_fresh_def)

lemma sample_shapes:
  "Shape_rank shape_1000 = 3" "Shape_rank shape_256 = 3" "Shape_rank shape_max = 3"
  "Shape_rank shape_2 = 3" "Shape_rank Shape_default = 0"
  "Shape_data shape_1000 = [1000, 1, 1, 0, 0, 0, 0, 0]"
  "Shape_data shape_256 = [256, 1, 1, 0, 0, 0, 0, 0]"
  "Shape_data shape_max = [18446744073709551615, 1, 1, 0, 0, 0, 0, 0]"
  "Shape_data shape_2 = [2, 1, 1, 0, 0, 0, 0, 0]"
  "Shape_data Shape_default = [0, 0, 0, 0, 0, 0, 0, 0]"
  "ShaderCode_workgroupSize shader_256 = shape_256"
  "ShaderCode_workgroupSize shader_2 = shape_2"
  by (simp_all add: shape_1000_def shape_256_def shape_max_def shape_2_def Shape_default_def
        shader_256_def shader_2_def kMaxRank_def eval_nat_numeral)

lemma CreateKernel_sample_returns:
  "\<exists>op tr1. CreateKernel kDebug wgpu_fresh [] ctx0 shader_256 [tensor_5] shape_1000 16 =
     (Inr op, tr1)"
  "\<exists>op tr1. CreateKernel kDebug wgpu_fresh [] ctx0 shader_2 [] shape_max 0 = (Inr op, tr1)"
  by (rule CreateKernel_returns; simp add: sample_shapes Shape_ok_samples wgpu_fresh_nonnull)+

lemma nWorkgroups_of_release:
  assumes "Shape_ok nThreads" "Shape_ok ws"
    "Shape_data ws ! 0 \<noteq> 0" "Shape_data ws ! 1 \<noteq> 0" "Shape_data ws ! 2 \<noteq> 0"
  shows "nWorkgroups_of False nThreads ws =
     Inr \<lparr>Shape_data =
            [(Shape_data nThreads ! 0 + (Shape_data ws ! 0 - 1)) div Shape_data ws ! 0,
             (Shape_data nThreads ! 1 + (Shape_data ws ! 1 - 1)) div Shape_data ws ! 1,
             (Shape_data nThreads ! 2 + (Shape_data ws ! 2 - 1)) div Shape_data ws ! 2,
             0, 0, 0, 0, 0],
          Shape_rank = 3\<rparr>"
proof -
  have len: "length (Shape_data nThreads) = 8" "length (Shape_data ws) = 8"
    using assms(1,2) by (simp_all add: Shape_ok_def kMaxRank_def)
  have ax: "\<And>a. a < 3 \<Longrightarrow> Shape_data ws ! a \<noteq> 0 \<Longrightarrow>
      nWorkgroups_axis False nThreads ws a =
        Inr ((Shape_data nThreads ! a + (Shape_data ws ! a - 1)) div Shape_data ws ! a)"
    using len by (simp add: nWorkgroups_axis_def Shape_at_def assert_cpp_def)
  show ?thesis
    using ax [of 0] ax [of 1] ax [of 2] assms(3-5)
    by (simp add: nWorkgroups_of_def Shape_init_def kMaxRank_def replicate_5)
qed

lemma ResetCommandBuffer_release_returns:
  assumes "Shape_ok nThreads" "Shape_ok (Kernel_nWorkgroups op)"
  shows "\<exists>op1 tr1. ResetCommandBuffer False wgpu tr device nThreads op = (Inr op1, tr1)"
proof -
  from ToString_loop_Inr [OF Shape_ok_rank [OF assms(1)], of 0 "[]"]
  obtain s where s: "ToString_Shape nThreads = Inr s"
    by (auto simp: ToString_Shape_def)
  have at: "\<And>a. a < 3 \<Longrightarrow> Shape_at False (Kernel_nWorkgroups op) a =
              Inr (Shape_data (Kernel_nWorkgroups op) ! a)"
    using assms(2) by (simp add: Shape_at_def assert_cpp_def Shape_ok_def kMaxRank_def)
  show ?thesis
    using s at [of 0] at [of 1] at [of 2]
    by (simp add: ResetCommandBuffer_def Let_def call_def check_def split: prod.splits)
qed

lemma CreateKernel_release_returns:
  assumes "Shape_ok nThreads" "Shape_ok (ShaderCode_workgroupSize shader)"
    "Shape_data (ShaderCode_workgroupSize shader) ! 0 \<noteq> 0"
    "Shape_data (ShaderCode_workgroupSize shader) ! 1 \<noteq> 0"
    "Shape_data (ShaderCode_workgroupSize shader) ! 2 \<noteq> 0"
  shows "\<exists>op tr1. CreateKernel False wgpu tr ctx shader inputs nThreads paramsSize = (Inr op, tr1)"
proof -
  obtain op0 tr11 where
    p: "CreateKernel_pipeline wgpu tr ctx shader inputs paramsSize = (op0, tr11)"
    by (cases "CreateKernel_pipeline wgpu tr ctx shader inputs paramsSize")
  note nw = nWorkgroups_of_release [OF assms(1-5)]
  let ?nw = "\<lparr>Shape_data =
            [(Shape_data nThreads ! 0 + (Shape_data (ShaderCode_workgroupSize shader) ! 0 - 1))
               div Shape_data (ShaderCode_workgroupSize shader) ! 0,
             (Shape_data nThreads ! 1 + (Shape_data (ShaderCode_workgroupSize shader) ! 1 - 1))
               div Shape_data (ShaderCode_workgroupSize shader) ! 1,
             (Shape_data nThreads ! 2 + (Shape_data (ShaderCode_workgroupSize shader) ! 2 - 1))
               div Shape_data (ShaderCode_workgroupSize shader) ! 2,
             0, 0, 0, 0, 0],
          Shape_rank = 3\<rparr>"
  have ok: "Shape_ok (Kernel_nWorkgroups (op0\<lparr>Kernel_nWorkgroups := ?nw\<rparr>))"
    by (simp add: Shape_ok_def kMaxRank_def)
  from ResetCommandBuffer_release_returns [OF assms(1) ok]
  obtain op1 tr12 where "ResetCommandBuffer False wgpu tr11 (Context_device ctx) nThreads
      (op0\<lparr>Kernel_nWorkgroups := ?nw\<rparr>) = (Inr op1, tr12)" by blast
  then show ?thesis
    using p nw by (simp add: CreateKernel_def assert_cpp_def)
qed

lemma nWorkgroups_of_samples:
  "nWorkgroups_of kDebug shape_1000 shape_256 =
     Inr \<lparr>Shape_data = [4, 1, 1, 0, 0, 0, 0, 0], Shape_rank = 3\<rparr>"
  "nWorkgroups_of kDebug shape_max shape_2 =
     Inr \<lparr>Shape_data = [0, 1, 1, 0, 0, 0, 0, 0], Shape_rank = 3\<rparr>"
  "nWorkgroups_of False Shape_default shape_256 =
     Inr \<lparr>Shape_data = [0, 0, 0, 0, 0, 0, 0, 0], Shape_rank = 3\<rparr>"
  by (simp_all add: nWorkgroups_of_returns nWorkgroups_of_release Shape_ok_samples sample_shapes)

text \<open>
  C1. Whenever \<open>CreateKernel\<close> returns a kernel for N input tensors, \<open>numBindings\<close> is N
  without a parameter block (\<open>paramsSize = 0\<close>) and N + 1 with one; the function creates
  one bind-group layout, with \<open>numBindings\<close> entries, of which the first N are storage
  entries whose minimum binding size is the byte size of the corresponding tensor, and,
  with a parameter block, the last one is the only uniform entry, of minimum size
  \<open>paramsSize\<close>.
\<close>

theorem CreateKernel_bindings:
  assumes "CreateKernel kDebug wgpu tr ctx shader inputs nThreads paramsSize = (Inr op, tr1)"
  shows "Kernel_numBindings op = length inputs + (if paramsSize = 0 then 0 else 1) \<and>
    (\<exists>es evs. tr1 = tr @ evs \<and>
       filter is_CreateBindGroupLayout evs =
         [DeviceCreateBindGroupLayout (Context_device ctx) es] \<and>
       length es = Kernel_numBindings op \<and>
       (\<forall>i<length inputs.
          layout_type (es ! i) = BindingType_Storage \<and>
          layout_minBindingSize (es ! i) = Array_size (Tensor_data (inputs ! i))) \<and>
       (paramsSize \<noteq> 0 \<longrightarrow>
          layout_type (es ! (Kernel_numBindings op - 1)) = BindingType_Uniform \<and>
          layout_minBindingSize (es ! (Kernel_numBindings op - 1)) = paramsSize) \<and>
       (\<forall>i<length es.
          layout_type (es ! i) = BindingType_Uniform \<longleftrightarrow>
          paramsSize \<noteq> 0 \<and> i = Kernel_numBindings op - 1))"
proof -
  let ?es = "bgLayoutEntries inputs paramsSize"
  have nb: "Kernel_numBindings op = length inputs + (if paramsSize = 0 then 0 else 1)"
    using CreateKernel_Inr(1) [OF assms] by (simp add: word_greater_zero_iff)
  from CreateKernel_Inr(3) [OF assms] obtain evs where
    evs: "tr1 = tr @ evs"
      "filter is_CreateBindGroupLayout evs = [DeviceCreateBindGroupLayout (Context_device ctx) ?es]"
    by blast
  have len: "length ?es = Kernel_numBindings op"
    using nb by (simp add: bgLayoutEntries_eq word_greater_zero_iff)
  have inp: "\<forall>i<length inputs.
          layout_type (?es ! i) = BindingType_Storage \<and>
          layout_minBindingSize (?es ! i) = Array_size (Tensor_data (inputs ! i))"
    by (simp add: bgLayoutEntries_eq nth_append bgLayoutEntry_input_def)
  have par: "paramsSize \<noteq> 0 \<longrightarrow>
          layout_type (?es ! (Kernel_numBindings op - 1)) = BindingType_Uniform \<and>
          layout_minBindingSize (?es ! (Kernel_numBindings op - 1)) = paramsSize"
    using nb by (simp add: bgLayoutEntries_eq nth_append word_greater_zero_iff)
  have uni: "\<forall>i<length ?es.
          layout_type (?es ! i) = BindingType_Uniform \<longleftrightarrow>
          paramsSize \<noteq> 0 \<and> i = Kernel_numBindings op - 1"
    using nb
    by (auto simp: bgLayoutEntries_eq nth_append word_greater_zero_iff bgLayoutEntry_input_def
          less_Suc_eq)
  from nb evs len inp par uni show ?thesis by blast
qed

theorem CreateKernel_bindings_witness:
  "\<exists>op tr1. CreateKernel True wgpu_fresh [] ctx0 shader_256 [tensor_5] shape_1000 16 =
       (Inr op, tr1) \<and> Kernel_numBindings op = 2"
proof -
  from CreateKernel_sample_returns(1) [of True] obtain op tr1 where
    r: "CreateKernel True wgpu_fresh [] ctx0 shader_256 [tensor_5] shape_1000 16 = (Inr op, tr1)"
    by blast
  from CreateKernel_bindings [OF r] have "Kernel_numBindings op = 2" by simp
  with r show ?thesis by blast
qed

text \<open>
  C2, as amended. Whenever \<open>CreateKernel\<close> returns a kernel, the stored workgroup shape
  has rank 3, the workgroup size \<open>w[axis]\<close> is positive and, for each axis 0, 1, 2 on which
  \<open>nThreads[axis] + w[axis] - 1\<close> stays below \<open>2 ^ 64\<close>, the stored count is the ceiling of
  \<open>nThreads[axis] / w[axis]\<close>; \<open>{1000, 1, 1}\<close> with \<open>{256, 1, 1}\<close> gives \<open>{4, 1, 1}\<close>. (Where
  the sum wraps around, the count is that of the wrapped sum.)
\<close>

theorem CreateKernel_nWorkgroups_ceil:
  assumes "CreateKernel kDebug wgpu tr ctx shader inputs nThreads paramsSize = (Inr op, tr1)"
      and "axis < 3"
      and "unat (Shape_data nThreads ! axis) +
           unat (Shape_data (ShaderCode_workgroupSize shader) ! axis) - 1 < 2 ^ 64"
  shows "Shape_rank (Kernel_nWorkgroups op) = 3 \<and>
         0 < Shape_data (ShaderCode_workgroupSize shader) ! axis \<and>
         int (unat (Shape_data (Kernel_nWorkgroups op) ! axis)) =
           \<lceil>real (unat (Shape_data nThreads ! axis)) /
            real (unat (Shape_data (ShaderCode_workgroupSize shader) ! axis))\<rceil>"
proof -
  let ?w = "Shape_data (ShaderCode_workgroupSize shader) ! axis"
  let ?n = "Shape_data nThreads ! axis"
  have nw: "nWorkgroups_of kDebug nThreads (ShaderCode_workgroupSize shader) =
              Inr (Kernel_nWorkgroups op)"
    by (rule CreateKernel_Inr(2) [OF assms(1)])
  from nWorkgroups_of_Inr [OF nw] have rank: "Shape_rank (Kernel_nWorkgroups op) = 3"
    by auto
  from nWorkgroups_axis_Inr [OF nWorkgroups_of_axis [OF nw assms(2)]]
  have w: "?w \<noteq> 0"
    and c: "Shape_data (Kernel_nWorkgroups op) ! axis = (?n + (?w - 1)) div ?w"
    by simp_all
  have pos: "0 < unat ?w" using w by (simp add: unat_gt_0)
  have "unat (Shape_data (Kernel_nWorkgroups op) ! axis) = (unat ?n + unat ?w - 1) div unat ?w"
    unfolding c by (rule unat_ceil_div [OF w assms(3)])
  then have "int (unat (Shape_data (Kernel_nWorkgroups op) ! axis)) =
        \<lceil>real (unat ?n) / real (unat ?w)\<rceil>"
    using ceil_div_nat [OF pos, of "unat ?n"] by simp
  with rank w show ?thesis by (simp add: word_greater_zero_iff)
qed

theorem CreateKernel_nWorkgroups_ceil_witness:
  "\<exists>op tr1. CreateKernel True wgpu_fresh [] ctx0 shader_256 [tensor_5] shape_1000 16 =
       (Inr op, tr1) \<and>
     int (unat (Shape_data (Kernel_nWorkgroups op) ! 0)) = \<lceil>1000 / 256 :: real\<rceil> \<and>
     Kernel_nWorkgroups op = \<lparr>Shape_data = [4, 1, 1, 0, 0, 0, 0, 0], Shape_rank = 3\<rparr>"
proof -
  from CreateKernel_sample_returns(1) [of True] obtain op tr1 where
    r: "CreateKernel True wgpu_fresh [] ctx0 shader_256 [tensor_5] shape_1000 16 = (Inr op, tr1)"
    by blast
  have "int (unat (Shape_data (Kernel_nWorkgroups op) ! 0)) = \<lceil>1000 / 256 :: real\<rceil>"
    using CreateKernel_nWorkgroups_ceil [OF r, of 0] by (simp add: sample_shapes)
  moreover have "Kernel_nWorkgroups op = \<lparr>Shape_data = [4, 1, 1, 0, 0, 0, 0, 0], Shape_rank = 3\<rparr>"
    using CreateKernel_Inr(2) [OF r] by (simp add: sample_shapes nWorkgroups_of_samples)
  ultimately show ?thesis using r by blast
qed

text \<open>
  The claim as stated fails where \<open>nThreads[axis] + w[axis] - 1\<close> wraps: with
  \<open>nThreads = {2^64 - 1, 1, 1}\<close> and \<open>w = {2, 1, 1}\<close> the stored count of axis 0 is 0, and the
  ceiling of the quotient is \<open>2 ^ 63\<close>.
\<close>

theorem CreateKernel_nWorkgroups_counterexample:
  "map_sum id Kernel_nWorkgroups
     (fst (CreateKernel True wgpu_fresh [] ctx0 shader_2 [] shape_max 0)) =
     Inr \<lparr>Shape_data = [0, 1, 1, 0, 0, 0, 0, 0], Shape_rank = 3\<rparr> \<and>
   \<lceil>real (unat (Shape_data shape_max ! 0)) / real (unat (Shape_data shape_2 ! 0))\<rceil> =
     9223372036854775808"
proof -
  from CreateKernel_sample_returns(2) [of True] obtain op tr1 where
    r: "CreateKernel True wgpu_fresh [] ctx0 shader_2 [] shape_max 0 = (Inr op, tr1)"
    by blast
  have "Kernel_nWorkgroups op = \<lparr>Shape_data = [0, 1, 1, 0, 0, 0, 0, 0], Shape_rank = 3\<rparr>"
    using CreateKernel_Inr(2) [OF r] by (simp add: sample_shapes nWorkgroups_of_samples)
  moreover have "\<lceil>real (unat (Shape_data shape_max ! 0)) / real (unat (Shape_data shape_2 ! 0))\<rceil> =
     9223372036854775808"
    by (simp add: sample_shapes)
  ultimately show ?thesis using r by simp
qed

text \<open>
  C8, as amended. In a build with assertions (\<open>NDEBUG\<close> not defined, \<open>kDebug\<close> true)
  \<open>CreateKernel\<close> requires \<open>nThreads\<close> of rank exactly 3: for every other rank the assertion
  of line 702 fires before any construction step (the trace is unchanged), and for rank 3
  it never fires. In a build with \<open>NDEBUG\<close> the assertion is compiled away: it never fires
  and construction goes on whatever the rank.
\<close>

theorem CreateKernel_rank_assertion:
  "(fst (CreateKernel kDebug wgpu tr ctx shader inputs nThreads paramsSize) =
      Inl (AssertFailed ''nThreads.rank == 3'') \<longleftrightarrow> kDebug \<and> Shape_rank nThreads \<noteq> 3) \<and>
   (kDebug \<and> Shape_rank nThreads \<noteq> 3 \<longrightarrow>
      snd (CreateKernel kDebug wgpu tr ctx shader inputs nThreads paramsSize) = tr)"
  using CreateKernel_assert_iff [of kDebug wgpu tr ctx shader inputs nThreads paramsSize]
        CreateKernel_assert_trace [of kDebug nThreads wgpu tr ctx shader inputs paramsSize]
  by simp

theorem CreateKernel_rank_assertion_witness:
  "CreateKernel True wgpu_fresh [] ctx0 shader_256 [] Shape_default 0 =
     (Inl (AssertFailed ''nThreads.rank == 3''), []) \<and>
   fst (CreateKernel True wgpu_fresh [] ctx0 shader_256 [] shape_1000 0) \<noteq>
     Inl (AssertFailed ''nThreads.rank == 3'')"
  using CreateKernel_rank_assertion [of True wgpu_fresh "[]" ctx0 shader_256 "[]" Shape_default 0]
        CreateKernel_rank_assertion [of True wgpu_fresh "[]" ctx0 shader_256 "[]" shape_1000 0]
  by (simp add: sample_shapes prod_eq_iff)

text \<open>
  The claim as stated fails in a build with \<open>NDEBUG\<close>: for \<open>nThreads\<close> of rank 0 the
  assertion does not fire and \<open>CreateKernel\<close> returns a kernel.
\<close>

theorem CreateKernel_rank_counterexample:
  "Shape_rank Shape_default = 0 \<and>
   map_sum id Kernel_nWorkgroups
     (fst (CreateKernel False wgpu_fresh [] ctx0 shader_256 [] Shape_default 0)) =
     Inr \<lparr>Shape_data = [0, 0, 0, 0, 0, 0, 0, 0], Shape_rank = 3\<rparr>"
proof -
  have "\<exists>op tr1. CreateKernel False wgpu_fresh [] ctx0 shader_256 [] Shape_default 0 = (Inr op, tr1)"
    by (rule CreateKernel_release_returns) (simp_all add: sample_shapes Shape_ok_samples)
  then obtain op tr1 where
    r: "CreateKernel False wgpu_fresh [] ctx0 shader_256 [] Shape_default 0 = (Inr op, tr1)"
    by blast
  have "Kernel_nWorkgroups op = \<lparr>Shape_data = [0, 0, 0, 0, 0, 0, 0, 0], Shape_rank = 3\<rparr>"
    using CreateKernel_Inr(2) [OF r] by (simp add: sample_shapes nWorkgroups_of_samples)
  then show ?thesis using r by (simp add: sample_shapes)
qed

section \<open>Readback\<close>



lemma check_cases:
  assumes "check kDebug c m t = (r, t1)"
  obtains (pass) lg where "r = Inr ()" "kDebug \<longrightarrow> c" "t1 = t @ lg" "lg = [] \<or> lg = [Log kTrace m]"
  | (exit) "r = Inl (Exit1 m)" "kDebug" "\<not> c" "t1 = t @ [Log kError m]"
  using assms by (auto simp: check_def split: if_splits)















lemma onMapped_release_fault:
  "onMapped False buffer bufferSize output d st = (Some e, st1) \<Longrightarrow>
   e = UB ''memcpy from a null pointer''"
  by (auto simp: onMapped_def check_def split: if_splits)

lemma deliver_release_fault:
  "deliver False buffer bufferSize output ds st = (Some e, st1) \<Longrightarrow>
   e = UB ''memcpy from a null pointer''"
proof (induction ds arbitrary: st)
  case Nil
  then show ?case by simp
next
  case (Cons d ds)
  show ?case
  proof (cases "op_pending st")
    case None
    then show ?thesis using Cons.prems by simp
  next
    case (Some p)
    show ?thesis
    proof (cases p)
      case PendingWorkDone
      then show ?thesis
        using Some Cons.prems Cons.IH
        by (auto simp: onWorkDone_def check_def)
    next
      case PendingMap
      obtain r st2 where w: "onMapped False buffer bufferSize output d st = (r, st2)"
        by (cases "onMapped False buffer bufferSize output d st")
      show ?thesis
      proof (cases r)
        case None
        then show ?thesis using Some PendingMap w Cons.prems Cons.IH by auto
      next
        case s: (Some e2)
        with w onMapped_release_fault have "e2 = UB ''memcpy from a null pointer''" by blast
        with s show ?thesis using Some PendingMap w Cons.prems by auto
      qed
    qed
  qed
qed

lemma Wait_release_fault:
  "fst (Wait False instance buffer bufferSize output schedule st) = Some (Inl e) \<Longrightarrow>
   e = UB ''memcpy from a null pointer''"
proof (induction schedule arbitrary: st)
  case Nil
  then show ?case by (simp split: if_splits)
next
  case (Cons tick schedule)
  show ?case
  proof (cases "op_ready st")
    case True
    then show ?thesis using Cons.prems by simp
  next
    case False
    let ?st0 = "st\<lparr>op_trace := op_trace st @ [InstanceProcessEvents instance]\<rparr>"
    obtain r st1 where d: "deliver False buffer bufferSize output tick ?st0 = (r, st1)"
      by (cases "deliver False buffer bufferSize output tick ?st0")
    show ?thesis
    proof (cases r)
      case None
      then show ?thesis using False d Cons.prems Cons.IH by simp
    next
      case (Some e2)
      with d deliver_release_fault have "e2 = UB ''memcpy from a null pointer''" by blast
      with Some show ?thesis using False d Cons.prems by simp
    qed
  qed
qed

lemma ToCPU_release_no_exit:
  "fst (ToCPU False wgpu schedule tr ctx tensor output bufferSize) \<noteq> Some (Inl (Exit1 m))"
proof -
  let ?device = "Context_device ctx"
  let ?e1 = "DeviceCreateBuffer ?device
                (or WGPUBufferUsage_CopyDst WGPUBufferUsage_MapRead) bufferSize"
  let ?readback = "wgpu (tr @ [?e1])"
  let ?e2 = "DeviceCreateCommandEncoder ?device"
  let ?enc = "wgpu (tr @ [?e1, ?e2])"
  let ?e3 = "CommandEncoderCopyBufferToBuffer ?enc (Array_buffer (Tensor_data tensor))
               ?readback bufferSize"
  let ?e4 = "CommandEncoderFinish ?enc"
  let ?cb = "wgpu (tr @ [?e1, ?e2, ?e3, ?e4])"
  let ?st0 = "\<lparr>op_trace = tr @ [?e1, ?e2, ?e3, ?e4, QueueSubmit (Context_queue ctx) ?cb,
                               QueueOnSubmittedWorkDone (Context_queue ctx)],
              op_pending = Some PendingWorkDone, op_ready = False\<rparr>"
  have "fst (ToCPU False wgpu schedule tr ctx tensor output bufferSize) =
      fst (Wait False (Context_instance ctx) ?readback bufferSize output schedule ?st0)"
    by (simp add: ToCPU_def Let_def call_def check_def split: prod.splits)
  then show ?thesis
    using Wait_release_fault [of "Context_instance ctx" ?readback bufferSize "output" schedule ?st0 "Exit1 m"]
    by auto
qed

lemma ResetCommandBuffer_release_no_exit:
  "fst (ResetCommandBuffer False wgpu tr device nThreads op) \<noteq> Inl (Exit1 m)"
proof (cases "ToString_Shape nThreads")
  case (Inl a)
  then show ?thesis
    using ToString_loop_fault [of nThreads 0 "[]" a]
    by (auto simp: ResetCommandBuffer_def Let_def ToString_Shape_def split: prod.splits)
next
  case (Inr s)
  have at: "\<And>a e. Shape_at False (Kernel_nWorkgroups op) a = Inl e \<Longrightarrow> e \<noteq> Exit1 m"
    by (auto simp: Shape_at_def assert_cpp_def split: if_splits)
  show ?thesis
    using Inr at
    by (auto simp: ResetCommandBuffer_def Let_def call_def check_def split: prod.splits sum.splits)
qed





section \<open>check\<close>

text \<open>
  C10. \<open>check\<close> ends the process, after logging an error, exactly when the build is a debug
  build and the condition is false; in a release build it returns without any effect
  whatever the condition. So in a release build the checks of the construction steps
  never end the process: \<open>CreateContext\<close> returns a Context whatever the instance handle
  and the request statuses are, and neither \<open>ResetCommandBuffer\<close> (command-buffer
  creation) nor \<open>ToCPU\<close> (command-buffer creation, work-done status, map status) exits.
\<close>

theorem check_exits_only_in_debug:
  "(fst (check kDebug condition message tr) = Inl (Exit1 message) \<longleftrightarrow>
      kDebug \<and> \<not> condition) \<and>
   (fst (check kDebug condition message tr) = Inr () \<longleftrightarrow> \<not> (kDebug \<and> \<not> condition)) \<and>
   (kDebug \<and> \<not> condition \<longrightarrow>
      snd (check kDebug condition message tr) = tr @ [Log kError message]) \<and>
   check False condition message tr = (Inr (), tr) \<and>
   (\<exists>c. fst (CreateContext False wgpu adapterReply deviceReply tr) = Inr c) \<and>
   (\<forall>m. fst (ResetCommandBuffer False wgpu tr device nThreads op) \<noteq> Inl (Exit1 m)) \<and>
   (\<forall>m. fst (ToCPU False wgpu schedule tr ctx tensor output bufferSize) \<noteq>
      Some (Inl (Exit1 m)))"
  using CreateContext_release [of wgpu adapterReply deviceReply tr]
        ResetCommandBuffer_release_no_exit [of wgpu tr device nThreads op]
        ToCPU_release_no_exit [of wgpu schedule tr ctx tensor "output" bufferSize]
  by (auto simp: check_def)

theorem check_exits_only_in_debug_witness:
  "check True False ''Queue work done'' [] =
     (Inl (Exit1 ''Queue work done''), [Log kError ''Queue work done'']) \<and>
   check False False ''Queue work done'' [] = (Inr (), [])"
  using check_exits_only_in_debug [of True False "''Queue work done''" "[]"]
        check_exits_only_in_debug [of False False "''Queue work done''" "[]"]
  by (simp add: prod_eq_iff)

section \<open>Shader templating\<close>

lemma find_first_None:
  "find_first s from = None \<Longrightarrow> from \<noteq> [] \<and> replace_every from to s = s"
proof (induction s)
  case Nil
  then show ?case by (simp add: replace_every.simps split: if_splits)
next
  case (Cons c cs)
  then show ?case
    by (auto simp: replace_every.simps split: if_splits)
qed

lemma find_first_Some:
  "find_first s from = Some i \<Longrightarrow> from \<noteq> [] \<Longrightarrow>
   i + length from \<le> length s \<and>
   replace_every from to s =
     take i s @ to @ replace_every from to (drop (i + length from) s)"
proof (induction s arbitrary: i)
  case Nil
  then show ?case by simp
next
  case (Cons c cs)
  show ?case
  proof (cases "prefix from (c # cs)")
    case True
    with Cons.prems have i: "i = 0" by simp
    from True have "length from \<le> length (c # cs)" by (rule prefix_length_le)
    with True Cons.prems(2) i show ?thesis
      by (simp add: replace_every.simps)
  next
    case False
    with Cons.prems obtain j where j: "find_first cs from = Some j" "i = Suc j"
      by (auto split: if_splits)
    from Cons.IH [OF j(1) Cons.prems(2)] False j(2) show ?thesis
      by (simp add: replace_every.simps)
  qed
qed

lemma ReplaceAll_loop_replace_every:
  "from \<noteq> [] \<Longrightarrow> pos \<le> length str \<Longrightarrow>
   ReplaceAll_loop str from to pos =
     Some (take pos str @ replace_every from to (drop pos str))"
proof (induction "length str - pos" arbitrary: str pos rule: less_induct)
  case less
  show ?case
  proof (cases "find_first (drop pos str) from")
    case None
    from find_first_None [OF None, of to] have "replace_every from to (drop pos str) = drop pos str"
      by simp
    with None less.prems(2) show ?thesis
      by (subst ReplaceAll_loop.simps) (simp add: string_find_def)
  next
    case (Some i)
    from find_first_Some [OF Some less.prems(1), of to]
    have le: "i + length from \<le> length (drop pos str)"
      and re: "replace_every from to (drop pos str) =
        take i (drop pos str) @ to @
        replace_every from to (drop (i + length from) (drop pos str))"
      by simp_all
    let ?p = "pos + i"
    let ?str1 = "string_replace str ?p (length from) to"
    have p: "?p + length from \<le> length str" using le less.prems(2) by simp
    have len1: "length ?str1 = ?p + length to + (length str - (?p + length from))"
      using p by (simp add: string_replace_def)
    have dec: "length ?str1 - (?p + length to) < length str - pos"
      using len1 p less.prems(1,2) by (cases "from") simp_all
    have pos1: "?p + length to \<le> length ?str1" using len1 by simp
    have tk: "take (?p + length to) ?str1 = take ?p str @ to"
      using p by (simp add: string_replace_def)
    have dr: "drop (?p + length to) ?str1 = drop (?p + length from) str"
      using p by (simp add: string_replace_def)
    have "ReplaceAll_loop str from to pos = ReplaceAll_loop ?str1 from to (?p + length to)"
      using Some less.prems(2)
      by (subst ReplaceAll_loop.simps) (simp add: string_find_def)
    also have "\<dots> = Some (take (?p + length to) ?str1 @
                 replace_every from to (drop (?p + length to) ?str1))"
      by (rule less.hyps [OF dec less.prems(1) pos1])
    also have "\<dots> = Some (take pos str @ replace_every from to (drop pos str))"
    proof -
      have tk2: "take ?p str = take pos str @ take i (drop pos str)"
        by (simp add: take_add)
      have dr2: "drop (?p + length from) str = drop (i + length from) (drop pos str)"
        by (simp add: ac_simps)
      have "take (?p + length to) ?str1 @ replace_every from to (drop (?p + length to) ?str1) =
            (take pos str @ take i (drop pos str)) @ to @
            replace_every from to (drop (i + length from) (drop pos str))"
        unfolding tk dr tk2 dr2 by simp
      with re show ?thesis by simp
    qed
    finally show ?thesis .
  qed
qed

lemma ReplaceAll_replace_every:
  "from \<noteq> [] \<Longrightarrow> ReplaceAll str from to = Some (replace_every from to str)"
  by (simp add: ReplaceAll_def ReplaceAll_loop_replace_every)

lemma digit_char_values:
  "digit_char 0 = CHR ''0''" "digit_char (Suc 0) = CHR ''1''" "digit_char 2 = CHR ''2''"
  "digit_char 3 = CHR ''3''" "digit_char 4 = CHR ''4''" "digit_char 5 = CHR ''5''"
  "digit_char 6 = CHR ''6''" "digit_char 7 = CHR ''7''" "digit_char 8 = CHR ''8''"
  "digit_char 9 = CHR ''9''"
  by code_simp+

lemma digit_char_in:
  assumes "d < 10"
  shows "is_digit_or_sep (digit_char d)"
proof -
  from assms have "d = 0 \<or> d = 1 \<or> d = 2 \<or> d = 3 \<or> d = 4 \<or> d = 5 \<or> d = 6 \<or> d = 7 \<or>
      d = 8 \<or> d = 9" by presburger
  then show ?thesis
    by (elim disjE) (simp_all add: digit_char_values is_digit_or_sep_def)
qed

lemma digits_acc_chars:
  "list_all is_digit_or_sep acc \<Longrightarrow> list_all is_digit_or_sep (digits_acc fuel n acc)"
proof (induction fuel arbitrary: n acc)
  case 0
  then show ?case by simp
next
  case (Suc fuel)
  show ?case
  proof (cases "n < 10")
    case True
    with digit_char_in [of n] Suc.prems show ?thesis by simp
  next
    case False
    have "is_digit_or_sep (digit_char (n mod 10))"
      by (rule digit_char_in) simp
    with Suc.IH [of "digit_char (n mod 10) # acc" "n div 10"] False Suc.prems show ?thesis
      by simp
  qed
qed

lemma digits_acc_nonempty:
  "0 < fuel \<or> acc \<noteq> [] \<Longrightarrow> digits_acc fuel n acc \<noteq> []"
proof (induction fuel arbitrary: n acc)
  case 0
  then show ?case by simp
next
  case (Suc fuel)
  show ?case
  proof (cases "n < 10")
    case True
    then show ?thesis by simp
  next
    case False
    with Suc.IH [of "digit_char (n mod 10) # acc" "n div 10"] show ?thesis by simp
  qed
qed

lemma to_string_chars: "list_all is_digit_or_sep (to_string v)"
  by (simp add: to_string_def digits_acc_chars)

lemma to_string_nonempty: "to_string v \<noteq> []"
  by (simp add: to_string_def digits_acc_nonempty)

lemma sep_chars: "list_all is_digit_or_sep '', ''"
  by (simp add: is_digit_or_sep_def)

lemma ToString_loop_chars:
  "ToString_loop s i str = Inr r \<Longrightarrow> list_all is_digit_or_sep str \<Longrightarrow>
   list_all is_digit_or_sep r"
proof (induction s i str rule: ToString_loop.induct)
  case (1 shape i str)
  note unfold = ToString_loop.simps [of shape i str]
  show ?case
  proof (cases "i < Shape_rank shape \<and> i < length (Shape_data shape)")
    case True
    let ?str1 = "str @ to_string (Shape_data shape ! i)"
    let ?str2 = "if i < (if Shape_rank shape = 0 then 2 ^ 64 - 1 else Shape_rank shape - 1)
                 then ?str1 @ '', '' else ?str1"
    from 1(2) unfold True have r: "ToString_loop shape (i + 1) ?str2 = Inr r"
      by (simp add: Let_def)
    have "list_all is_digit_or_sep ?str2"
      using 1(3) to_string_chars [of "Shape_data shape ! i"] sep_chars by simp
    with 1(1) [of ?str1 ?str2] True r show ?thesis by simp
  next
    case False
    with 1(2,3) unfold show ?thesis by (simp split: if_splits)
  qed
qed

lemma ToString_loop_length:
  "ToString_loop s i str = Inr r \<Longrightarrow>
   length str \<le> length r \<and> (i < Shape_rank s \<longrightarrow> length str < length r)"
proof (induction s i str rule: ToString_loop.induct)
  case (1 shape i str)
  note unfold = ToString_loop.simps [of shape i str]
  show ?case
  proof (cases "i < Shape_rank shape \<and> i < length (Shape_data shape)")
    case True
    let ?str1 = "str @ to_string (Shape_data shape ! i)"
    let ?str2 = "if i < (if Shape_rank shape = 0 then 2 ^ 64 - 1 else Shape_rank shape - 1)
                 then ?str1 @ '', '' else ?str1"
    from 1(2) unfold True have r: "ToString_loop shape (i + 1) ?str2 = Inr r"
      by (simp add: Let_def)
    with 1(1) [of ?str1 ?str2] True
    have "length ?str2 \<le> length r" by simp
    moreover have "length str < length ?str2"
      using to_string_nonempty [of "Shape_data shape ! i"] by (simp add: length_greater_0_conv)
    ultimately show ?thesis by linarith
  next
    case False
    with 1(2) unfold show ?thesis by (simp split: if_splits)
  qed
qed

lemma digit_or_sep_not_token:
  "is_digit_or_sep c \<Longrightarrow> c \<notin> set kPrecisionToken"
  by (auto simp: is_digit_or_sep_def kPrecisionToken_def)


lemma digit_or_sep_not_brace: "is_digit_or_sep c \<Longrightarrow> c \<noteq> CHR ''{''"
  by (auto simp: is_digit_or_sep_def)

lemma replace_precision_skip:
  "list_all is_digit_or_sep w \<Longrightarrow>
   replace_every kPrecisionToken p (w @ x) = w @ replace_every kPrecisionToken p x"
proof (induction w)
  case Nil
  then show ?case by simp
next
  case (Cons a w)
  from Cons.prems have "a \<noteq> CHR ''{''" by (simp add: digit_or_sep_not_brace)
  then have "\<not> prefix kPrecisionToken (a # w @ x)"
    by (simp add: kPrecisionToken_def)
  with Cons show ?case by (simp add: replace_every.simps)
qed

lemma replace_workgroup_over_precision:
  "replace_every kWorkgroupSizeToken w (kPrecisionToken @ t) =
     kPrecisionToken @ replace_every kWorkgroupSizeToken w t"
  by (simp add: kPrecisionToken_def kWorkgroupSizeToken_def replace_every.simps)

lemma replace_at_token:
  "from \<noteq> [] \<Longrightarrow> replace_every from to (from @ t) = to @ replace_every from to t"
  by (cases "from") (simp_all add: replace_every.simps)

lemma replace_take:
  "w \<noteq> [] \<Longrightarrow>
   take n (replace_every kWorkgroupSizeToken w s) = take n s \<or>
   (\<exists>j<n. j < length (replace_every kWorkgroupSizeToken w s) \<and>
      replace_every kWorkgroupSizeToken w s ! j \<in> set w)"
proof (induction s arbitrary: n rule: length_induct)
  case (1 s)
  show ?case
  proof (cases s)
    case Nil
    then show ?thesis by (simp add: replace_every.simps)
  next
    case (Cons c cs)
    show ?thesis
    proof (cases n)
      case 0
      then show ?thesis by simp
    next
      case (Suc m)
      show ?thesis
      proof (cases "prefix kWorkgroupSizeToken (c # cs)")
        case True
        have "kWorkgroupSizeToken \<noteq> []" by (simp add: kWorkgroupSizeToken_def)
        with True have "replace_every kWorkgroupSizeToken w s =
            w @ replace_every kWorkgroupSizeToken w (drop (length kWorkgroupSizeToken) (c # cs))"
          using Cons by (simp add: replace_every.simps)
        with 1(2) Suc have "0 < Suc m \<and> 0 < length (replace_every kWorkgroupSizeToken w s) \<and>
            replace_every kWorkgroupSizeToken w s ! 0 \<in> set w"
          by (cases w) simp_all
        with Suc show ?thesis by blast
      next
        case False
        then have r: "replace_every kWorkgroupSizeToken w s =
            c # replace_every kWorkgroupSizeToken w cs"
          using Cons by (simp add: replace_every.simps)
        from 1(1) Cons 1(2) have
          "take m (replace_every kWorkgroupSizeToken w cs) = take m cs \<or>
           (\<exists>j<m. j < length (replace_every kWorkgroupSizeToken w cs) \<and>
              replace_every kWorkgroupSizeToken w cs ! j \<in> set w)"
          by simp
        then show ?thesis
        proof
          assume "take m (replace_every kWorkgroupSizeToken w cs) = take m cs"
          with r Suc Cons show ?thesis by simp
        next
          assume "\<exists>j<m. j < length (replace_every kWorkgroupSizeToken w cs) \<and>
              replace_every kWorkgroupSizeToken w cs ! j \<in> set w"
          then obtain j where "j < m" "j < length (replace_every kWorkgroupSizeToken w cs)"
            "replace_every kWorkgroupSizeToken w cs ! j \<in> set w" by blast
          with r Suc have "Suc j < n \<and> Suc j < length (replace_every kWorkgroupSizeToken w s) \<and>
              replace_every kWorkgroupSizeToken w s ! Suc j \<in> set w" by simp
          then show ?thesis by blast
        qed
      qed
    qed
  qed
qed

lemma no_new_precision_token:
  assumes "w \<noteq> []" "list_all is_digit_or_sep w" "\<not> prefix kPrecisionToken s"
  shows "\<not> prefix kPrecisionToken (replace_every kWorkgroupSizeToken w s)"
proof
  let ?r = "replace_every kWorkgroupSizeToken w s"
  let ?n = "length kPrecisionToken"
  assume p: "prefix kPrecisionToken ?r"
  then have tk: "take ?n ?r = kPrecisionToken"
    by (auto simp: prefix_def)
  from replace_take [OF assms(1), of ?n s] show False
  proof
    assume "take ?n ?r = take ?n s"
    with tk have "take ?n s = kPrecisionToken" by simp
    then have "prefix kPrecisionToken s"
      by (metis take_is_prefix)
    with assms(3) show False by simp
  next
    assume "\<exists>j<?n. j < length ?r \<and> ?r ! j \<in> set w"
    then obtain j where j: "j < ?n" "j < length ?r" "?r ! j \<in> set w" by blast
    from p j(1) have "?r ! j = kPrecisionToken ! j"
      by (auto simp: prefix_def nth_append)
    with j(1) have "?r ! j \<in> set kPrecisionToken" by simp
    moreover from j(3) assms(2) have "is_digit_or_sep (?r ! j)"
      by (simp add: list_all_iff)
    ultimately show False using digit_or_sep_not_token by blast
  qed
qed

lemma sequential_is_simultaneous:
  assumes "w \<noteq> []" "list_all is_digit_or_sep w"
  shows "replace_every kPrecisionToken p (replace_every kWorkgroupSizeToken w t) =
         substitute_placeholders w p t"
  using assms
proof (induction w p t rule: substitute_placeholders.induct)
  case (1 ws pr)
  then show ?case by (simp add: replace_every.simps substitute_placeholders.simps)
next
  case (2 ws pr c cs)
  have wg: "kWorkgroupSizeToken \<noteq> []" and pt: "kPrecisionToken \<noteq> []"
    by (simp_all add: kWorkgroupSizeToken_def kPrecisionToken_def)
  show ?case
  proof (cases "prefix kWorkgroupSizeToken (c # cs)")
    case True
    then have "c # cs = kWorkgroupSizeToken @ drop (length kWorkgroupSizeToken) (c # cs)"
      by (auto simp: prefix_def)
    then have "replace_every kWorkgroupSizeToken ws (c # cs) =
        ws @ replace_every kWorkgroupSizeToken ws (drop (length kWorkgroupSizeToken) (c # cs))"
      using replace_at_token [OF wg] by metis
    with 2(1) [OF True] True 2(4,5) show ?thesis
      by (simp add: replace_precision_skip substitute_placeholders.simps)
  next
    case False
    show ?thesis
    proof (cases "prefix kPrecisionToken (c # cs)")
      case True
      then have e: "c # cs = kPrecisionToken @ drop (length kPrecisionToken) (c # cs)"
        by (auto simp: prefix_def)
      have "replace_every kPrecisionToken pr (replace_every kWorkgroupSizeToken ws (c # cs)) =
            replace_every kPrecisionToken pr (kPrecisionToken @
              replace_every kWorkgroupSizeToken ws (drop (length kPrecisionToken) (c # cs)))"
        using replace_workgroup_over_precision e by metis
      also have "\<dots> = pr @ replace_every kPrecisionToken pr
              (replace_every kWorkgroupSizeToken ws (drop (length kPrecisionToken) (c # cs)))"
        by (rule replace_at_token [OF pt])
      finally show ?thesis
        using 2(2) [OF False True] False True 2(4,5)
        by (simp add: substitute_placeholders.simps)
    next
      case np: False
      from False have r: "replace_every kWorkgroupSizeToken ws (c # cs) =
          c # replace_every kWorkgroupSizeToken ws cs"
        by (simp add: replace_every.simps)
      from no_new_precision_token [OF 2(4,5) np] r
      have "\<not> prefix kPrecisionToken (c # replace_every kWorkgroupSizeToken ws cs)" by simp
      then have "replace_every kPrecisionToken pr (c # replace_every kWorkgroupSizeToken ws cs) =
          c # replace_every kPrecisionToken pr (replace_every kWorkgroupSizeToken ws cs)"
        by (simp add: replace_every.simps)
      with r 2(3) [OF False np] False np 2(4,5) show ?thesis
        by (simp add: substitute_placeholders.simps)
    qed
  qed
qed

lemma ToString_Shape_result:
  assumes "Shape_ok s" "0 < Shape_rank s"
  shows "\<exists>ws. ToString_Shape s = Inr ws \<and> ws \<noteq> [] \<and> list_all is_digit_or_sep ws"
proof -
  from ToString_loop_Inr [OF Shape_ok_rank [OF assms(1)], of 0 "[]"]
  obtain ws where ws: "ToString_loop s 0 [] = Inr ws" by blast
  from ToString_loop_length [OF ws] assms(2) have "ws \<noteq> []" by auto
  moreover from ToString_loop_chars [OF ws] have "list_all is_digit_or_sep ws" by simp
  ultimately show ?thesis using ws by (simp add: ToString_Shape_def)
qed

lemma CreateShader_sequential:
  assumes "ToString_Shape workgroupSize = Inr ws"
  shows "CreateShader shaderTemplate workgroupSize precision tr =
     Some (Inr (\<lparr>ShaderCode_data =
                    replace_every kPrecisionToken (ToString_NumType precision)
                      (replace_every kWorkgroupSizeToken ws shaderTemplate),
                  ShaderCode_workgroupSize = workgroupSize, ShaderCode_precision = kf32\<rparr>,
                tr @ [Log kInfo ''Shader code:'']))"
proof -
  have "kWorkgroupSizeToken \<noteq> []" "kPrecisionToken \<noteq> []"
    by (simp_all add: kWorkgroupSizeToken_def kPrecisionToken_def)
  then show ?thesis
    using assms by (simp add: CreateShader_def ReplaceAll_replace_every)
qed

lemma substitute_placeholders_plain:
  "CHR ''{'' \<notin> set t \<Longrightarrow> substitute_placeholders ws pr t = t"
proof (induction t)
  case Nil
  then show ?case by (simp add: substitute_placeholders.simps)
next
  case (Cons c cs)
  then have "\<not> prefix kWorkgroupSizeToken (c # cs)" "\<not> prefix kPrecisionToken (c # cs)"
    by (auto simp: kWorkgroupSizeToken_def kPrecisionToken_def)
  with Cons show ?case by (simp add: substitute_placeholders.simps)
qed

lemma CreateShader_samples:
  "ToString_Shape shape_256 = Inr ''256, 1, 1''"
  "substitute_placeholders ''256, 1, 1'' ''f32''
     ''a {{workgroupSize}} b {{precision}} c {{workgroupSize}}'' =
     ''a 256, 1, 1 b f32 c 256, 1, 1''"
  "ToString_Shape Shape_default = Inr []"
  "substitute_placeholders [] ''f32'' ''{{prec{{workgroupSize}}ision}}'' = ''{{precision}}''"
  "CreateShader ''{{prec{{workgroupSize}}ision}}'' Shape_default kf32 [] =
     Some (Inr (\<lparr>ShaderCode_data = ''f32'', ShaderCode_workgroupSize = Shape_default,
                  ShaderCode_precision = kf32\<rparr>, [Log kInfo ''Shader code:'']))"
  by code_simp+

text \<open>
  C9, as amended. For every shader template string and every workgroup shape of rank 1 to
  \<open>kMaxRank\<close> (rank 3 is the documented one), \<open>CreateShader\<close> returns, and its text is the
  template with every occurrence of the workgroup-size token replaced by the string form
  of the shape and every occurrence of the precision token replaced by the string form
  of the precision, the same at each occurrence, and all other text unchanged. (For a
  shape of rank 0 the string form is empty, and deleting a workgroup-size token can join
  the text around it into a precision token, which is then replaced as well.)
\<close>

theorem CreateShader_substitutes:
  assumes "Shape_ok workgroupSize" "0 < Shape_rank workgroupSize"
  shows "\<exists>ws code tr1.
           ToString_Shape workgroupSize = Inr ws \<and>
           CreateShader shaderTemplate workgroupSize precision tr = Some (Inr (code, tr1)) \<and>
           ShaderCode_data code =
             substitute_placeholders ws (ToString_NumType precision) shaderTemplate"
proof -
  from ToString_Shape_result [OF assms] obtain ws where
    ws: "ToString_Shape workgroupSize = Inr ws" "ws \<noteq> []" "list_all is_digit_or_sep ws"
    by blast
  from CreateShader_sequential [OF ws(1)] sequential_is_simultaneous [OF ws(2,3)] ws(1)
  show ?thesis by simp
qed

theorem CreateShader_substitutes_witness:
  "Shape_ok shape_256 \<and> 0 < Shape_rank shape_256 \<and>
   (\<exists>code tr1.
      CreateShader ''a {{workgroupSize}} b {{precision}} c {{workgroupSize}}'' shape_256 kf32 [] =
        Some (Inr (code, tr1)) \<and>
      ShaderCode_data code = ''a 256, 1, 1 b f32 c 256, 1, 1'')"
  using CreateShader_substitutes [OF Shape_ok_samples(4), of
          "''a {{workgroupSize}} b {{precision}} c {{workgroupSize}}''" kf32 "[]"]
  by (auto simp: Shape_ok_samples sample_shapes CreateShader_samples)

text \<open>
  The claim as stated fails for a workgroup shape of rank 0, whose string form is empty:
  in the template \<open>{{prec{{workgroupSize}}ision}}\<close> the text around the workgroup-size
  token matches no token, and \<open>CreateShader\<close> returns \<open>f32\<close> instead of leaving it unchanged.
\<close>

theorem CreateShader_rank0_counterexample:
  "CreateShader ''{{prec{{workgroupSize}}ision}}'' Shape_default kf32 [] =
     Some (Inr (\<lparr>ShaderCode_data = ''f32'', ShaderCode_workgroupSize = Shape_default,
                  ShaderCode_precision = kf32\<rparr>, [Log kInfo ''Shader code:''])) \<and>
   ToString_Shape Shape_default = Inr [] \<and>
   substitute_placeholders [] ''f32'' ''{{prec{{workgroupSize}}ision}}'' = ''{{precision}}''"
  by (simp add: CreateShader_samples)

section \<open>Termination of the wait and of the templating loop\<close>

text \<open>
  \<open>ToCPU\<close> returns as soon as WebGPU has delivered both callbacks with success and a
  mapped range that is not null, however the deliveries are spread over the calls of the
  event-processing function (\<open>ToCPU_returns\<close> below). \<open>ReplaceAll\<close> returns for every
  non-empty token (\<open>ReplaceAll_replace_every\<close> above) and never for the empty one.
\<close>

lemma deliver_nothing_pending:
  "op_pending st = None \<Longrightarrow> deliver kDebug buffer bufferSize output ds st = (None, st)"
  by (cases ds) simp_all

lemma Wait_ready:
  "op_ready st \<Longrightarrow>
   fst (Wait kDebug instance buffer bufferSize output schedule st) = Some (Inr ())"
  by (cases schedule) simp_all

lemma onWorkDone_success:
  "\<exists>st1. onWorkDone kDebug buffer bufferSize True st = (None, st1) \<and>
      op_pending st1 = Some PendingMap \<and> op_ready st1 = op_ready st"
  by (simp add: onWorkDone_def check_def)

lemma onMapped_success:
  "m \<noteq> 0 \<Longrightarrow>
   \<exists>st1. onMapped kDebug buffer bufferSize output (True, m) st = (None, st1) \<and>
      op_pending st1 = None \<and> op_ready st1"
  by (simp add: onMapped_def check_def)

lemma Wait_returns_after_map:
  assumes "concat schedule = (True, m) # rest" "m \<noteq> 0"
    "op_pending st = Some PendingMap" "\<not> op_ready st"
  shows "fst (Wait kDebug instance buffer bufferSize output schedule st) = Some (Inr ())"
  using assms
proof (induction schedule arbitrary: st)
  case Nil
  then show ?case by simp
next
  case (Cons tick schedule)
  let ?st0 = "st\<lparr>op_trace := op_trace st @ [InstanceProcessEvents instance]\<rparr>"
  show ?case
  proof (cases tick)
    case Nil
    with Cons.prems have "concat schedule = (True, m) # rest" by simp
    from Cons.IH [OF this Cons.prems(2), of ?st0] Cons.prems(3,4) Nil show ?thesis
      by simp
  next
    case (Cons d ds)
    with Cons.prems(1) have d: "d = (True, m)" by simp
    from onMapped_success [OF Cons.prems(2), of kDebug buffer bufferSize "output" ?st0]
    obtain st1 where
      s1: "onMapped kDebug buffer bufferSize output (True, m) ?st0 = (None, st1)"
        "op_pending st1 = None" "op_ready st1" by blast
    have "deliver kDebug buffer bufferSize output tick ?st0 = (None, st1)"
      using Cons d s1 Cons.prems(3) by (simp add: deliver_nothing_pending)
    with Wait_ready [OF s1(3), of kDebug "instance" buffer bufferSize "output" schedule]
      Cons.prems(4) show ?thesis by simp
  qed
qed

lemma Wait_returns:
  assumes "concat schedule = (True, m1) # (True, m2) # rest" "m2 \<noteq> 0"
    "op_pending st = Some PendingWorkDone" "\<not> op_ready st"
  shows "fst (Wait kDebug instance buffer bufferSize output schedule st) = Some (Inr ())"
  using assms
proof (induction schedule arbitrary: st)
  case Nil
  then show ?case by simp
next
  case (Cons tick schedule)
  let ?st0 = "st\<lparr>op_trace := op_trace st @ [InstanceProcessEvents instance]\<rparr>"
  show ?case
  proof (cases tick)
    case Nil
    with Cons.prems have "concat schedule = (True, m1) # (True, m2) # rest" by simp
    from Cons.IH [OF this Cons.prems(2), of ?st0] Cons.prems(3,4) Nil show ?thesis
      by simp
  next
    case c1: (Cons d ds)
    with Cons.prems(1) have d: "d = (True, m1)"
      and rest1: "ds @ concat schedule = (True, m2) # rest" by simp_all
    from onWorkDone_success [of kDebug buffer bufferSize ?st0]
    obtain st1 where
      s1: "onWorkDone kDebug buffer bufferSize True ?st0 = (None, st1)"
        "op_pending st1 = Some PendingMap" "op_ready st1 = op_ready ?st0" by blast
    from s1(3) Cons.prems(4) have nr1: "\<not> op_ready st1" by simp
    have dl: "deliver kDebug buffer bufferSize output tick ?st0 =
              deliver kDebug buffer bufferSize output ds st1"
      using c1 d s1(1) Cons.prems(3) by simp
    show ?thesis
    proof (cases ds)
      case Nil
      with rest1 have "concat schedule = (True, m2) # rest" by simp
      from Wait_returns_after_map [OF this Cons.prems(2) s1(2) nr1] dl Nil Cons.prems(4)
      show ?thesis by simp
    next
      case c2: (Cons d2 ds2)
      with rest1 have d2: "d2 = (True, m2)" by simp
      from onMapped_success [OF Cons.prems(2), of kDebug buffer bufferSize "output" st1]
      obtain st2 where
        s2: "onMapped kDebug buffer bufferSize output (True, m2) st1 = (None, st2)"
          "op_pending st2 = None" "op_ready st2" by blast
      have "deliver kDebug buffer bufferSize output ds st1 = (None, st2)"
        using c2 d2 s2 s1(2) by (simp add: deliver_nothing_pending)
      with dl Wait_ready [OF s2(3), of kDebug "instance" buffer bufferSize "output" schedule]
        Cons.prems(4) show ?thesis by simp
    qed
  qed
qed

lemma ToCPU_returns:
  assumes "concat schedule = (True, m1) # (True, m2) # rest" "m2 \<noteq> 0" "\<forall>t. wgpu t \<noteq> 0"
  shows "fst (ToCPU kDebug wgpu schedule tr ctx tensor output bufferSize) = Some (Inr ())"
proof -
  let ?device = "Context_device ctx"
  let ?e1 = "DeviceCreateBuffer ?device
                (or WGPUBufferUsage_CopyDst WGPUBufferUsage_MapRead) bufferSize"
  let ?readback = "wgpu (tr @ [?e1])"
  let ?e2 = "DeviceCreateCommandEncoder ?device"
  let ?enc = "wgpu (tr @ [?e1, ?e2])"
  let ?e3 = "CommandEncoderCopyBufferToBuffer ?enc (Array_buffer (Tensor_data tensor))
               ?readback bufferSize"
  let ?e4 = "CommandEncoderFinish ?enc"
  let ?cb = "wgpu (tr @ [?e1, ?e2, ?e3, ?e4])"
  let ?pre = "[?e1, ?e2, ?e3, ?e4]"
  obtain r t5 where c: "check kDebug (?cb \<noteq> 0) ''Create command buffer'' (tr @ ?pre) = (r, t5)"
    by (cases "check kDebug (?cb \<noteq> 0) ''Create command buffer'' (tr @ ?pre)")
  from c show ?thesis
  proof (cases rule: check_cases)
    case exit
    with assms(3) show ?thesis by simp
  next
    case (pass lg)
    let ?st0 = "\<lparr>op_trace = t5 @ [QueueSubmit (Context_queue ctx) ?cb,
                               QueueOnSubmittedWorkDone (Context_queue ctx)],
                op_pending = Some PendingWorkDone, op_ready = False\<rparr>"
    have "fst (ToCPU kDebug wgpu schedule tr ctx tensor output bufferSize) =
            fst (Wait kDebug (Context_instance ctx) ?readback bufferSize output schedule ?st0)"
      using c pass(1) by (simp add: ToCPU_def Let_def call_def split: prod.splits)
    also have "\<dots> = Some (Inr ())"
      by (rule Wait_returns [OF assms(1,2)]) simp_all
    finally show ?thesis .
  qed
qed

lemma ReplaceAll_loop_empty_token:
  assumes "ReplaceAll_loop str from to pos = Some y"
  shows "\<not> (from = [] \<and> pos \<le> length str)"
proof (rule ReplaceAll_loop.raw_induct
    [where P = "\<lambda>str from to pos y. \<not> (from = [] \<and> pos \<le> length str)", OF _ assms])
  fix f :: "string \<Rightarrow> string \<Rightarrow> string \<Rightarrow> nat \<Rightarrow> string option"
  fix str "from" to :: string and start_pos :: nat and stra :: string
  assume IH: "\<And>from to start_pos b y. f from to start_pos b = Some y \<Longrightarrow>
                \<not> (to = [] \<and> b \<le> length from)"
    and body: "(case string_find str from start_pos of None \<Rightarrow> Some str
      | Some p \<Rightarrow> f (string_replace str p (length from) to) from to (p + length to)) = Some stra"
  show "\<not> (from = [] \<and> start_pos \<le> length str)"
  proof
    assume a: "from = [] \<and> start_pos \<le> length str"
    then have "string_find str from start_pos = Some start_pos"
      by (cases "drop start_pos str") (simp_all add: string_find_def)
    with body have "f (string_replace str start_pos (length from) to) from to
        (start_pos + length to) = Some stra" by simp
    from IH [OF this] a show False
      by (simp add: string_replace_def)
  qed
qed

lemma ReplaceAll_empty_token: "ReplaceAll str [] to = None"
  using ReplaceAll_loop_empty_token [of str "[]" to 0]
  by (cases "ReplaceAll str [] to") (auto simp: ReplaceAll_def)

end
